theory Spec2Isabelle
  imports Complex_Main "HOL-Library.Word"
begin

section \<open>JavaScript values used by the payroll core\<close>

text \<open>
  A JavaScript number is represented by its shortest round-trip decimal, the triple that
  ECMA-262 \<open>Number::toString\<close> is defined on: \<open>Fin m e\<close> stands for \<open>m * 10 ^ e\<close>, with
  \<open>m\<close> not divisible by 10 unless it is 0.  Two different doubles have different shortest
  decimals, so the representation loses nothing.
\<close>

datatype jsnum = NaN | Infinite bool | Fin int int

datatype jsval = JUndefined | JNull | JStr string | JNum jsnum

definition digit_char :: "nat \<Rightarrow> char" where
  "digit_char d = ''0123456789'' ! d"

function string_of_nat :: "nat \<Rightarrow> string" where
  "string_of_nat n =
     (if n < 10 then [digit_char n] else string_of_nat (n div 10) @ [digit_char (n mod 10)])"
  by pat_completeness auto
termination
  by (relation "measure id") auto

declare string_of_nat.simps [simp del]

text \<open>ECMA-262 \<open>Number::toString\<close> (radix 10) on a positive number with digits \<open>s\<close>.\<close>

definition posToString :: "nat \<Rightarrow> int \<Rightarrow> string" where
  "posToString s e =
     (let ds = string_of_nat s; k = int (length ds); n = k + e in
      if k \<le> n \<and> n \<le> 21 then ds @ replicate (nat (n - k)) (CHR ''0'')
      else if 0 < n \<and> n \<le> 21 then take (nat n) ds @ ''.'' @ drop (nat n) ds
      else if -6 < n \<and> n \<le> 0 then ''0.'' @ replicate (nat (- n)) (CHR ''0'') @ ds
      else
        (let ex = (if n - 1 < 0 then ''-'' else ''+'') @ string_of_nat (nat \<bar>n - 1\<bar>) in
         if k = 1 then ds @ ''e'' @ ex else [hd ds] @ ''.'' @ tl ds @ ''e'' @ ex))"

fun numberToString :: "jsnum \<Rightarrow> string" where
  "numberToString NaN = ''NaN''"
| "numberToString (Infinite neg) = (if neg then ''-Infinity'' else ''Infinity'')"
| "numberToString (Fin m e) =
     (if m = 0 then ''0''
      else (if m < 0 then ''-'' else '''') @ posToString (nat \<bar>m\<bar>) e)"

text \<open>\<open>ToString\<close> as a template literal applies it, and \<open>ToBoolean\<close> as \<open>||\<close> does.\<close>

fun toString :: "jsval \<Rightarrow> string" where
  "toString JUndefined = ''undefined''"
| "toString JNull = ''null''"
| "toString (JStr s) = s"
| "toString (JNum x) = numberToString x"

fun truthy :: "jsval \<Rightarrow> bool" where
  "truthy JUndefined = False"
| "truthy JNull = False"
| "truthy (JStr s) = (s \<noteq> [])"
| "truthy (JNum NaN) = False"
| "truthy (JNum (Infinite neg)) = True"
| "truthy (JNum (Fin m e)) = (m \<noteq> 0)"

definition js_or :: "jsval \<Rightarrow> jsval \<Rightarrow> jsval" where
  "js_or a b = (if truthy a then a else b)"

section \<open>Payment adapter (payments-adapter.ts)\<close>

text \<open>
  The object handed to \<open>createPayment\<close>.  The fields are untyped JavaScript values: the
  adapter only reads properties, and a property the object lacks reads as \<open>undefined\<close>.
\<close>

record payment_row =
  employee_id :: jsval
  employee_email :: jsval
  amount :: jsval
  currency :: jsval
  pay_date :: jsval
  description :: jsval
  external_reference :: jsval

record payment_result =
  success :: bool
  provider_id :: "string option"
  error :: "string option"
  rawResponse :: "(string \<times> jsval) list option"

text \<open>
  The constructor options of \<open>FakePaymentsAdapter\<close>.  \<open>successRate\<close> is the decimal the
  configuration writes; \<open>seed\<close> is an integer.
\<close>

record fake_adapter =
  successRate :: rat
  latencyMs :: nat
  seed :: int

definition defaultFakeAdapter :: fake_adapter where
  "defaultFakeAdapter = \<lparr>successRate = 8 / 10, latencyMs = 100, seed = 42\<rparr>"

text \<open>What \<open>Date.now()\<close>, \<open>Math.random()\<close> and \<open>new Date().toISOString()\<close> give one call.\<close>

record call_env =
  dateNow :: nat
  randomSuffix :: string
  isoNow :: string

definition toInt32 :: "int \<Rightarrow> int" where
  "toInt32 x = sint (word_of_int x :: 32 word)"

definition shiftLeft5 :: "int \<Rightarrow> int" where
  "shiftLeft5 x = sint (push_bit 5 (word_of_int x :: 32 word))"

text \<open>One round of the loop body: \<open>hash = (hash << 5) - hash + c; hash = hash & hash\<close>.\<close>

definition hashStep :: "int \<Rightarrow> char \<Rightarrow> int" where
  "hashStep hash c = toInt32 (shiftLeft5 hash - hash + int (of_char c))"

text \<open>
  \<open>seededRandom\<close> returns \<open>(Math.abs(hash) % 1000) / 1000\<close>; the model returns the
  numerator, a number of thousandths.
\<close>

definition seededRandom :: "fake_adapter \<Rightarrow> string \<Rightarrow> nat" where
  "seededRandom a input = nat (\<bar>foldl hashStep (seed a) input\<bar> mod 1000)"

definition paymentKey :: "payment_row \<Rightarrow> string" where
  "paymentKey input =
     toString (js_or (employee_id input) (employee_email input)) @ '':''
       @ toString (amount input) @ '':'' @ toString (pay_date input)"

definition adapterErrors :: "string list" where
  "adapterErrors =
     [''Insufficient funds'', ''Invalid account'', ''Daily limit exceeded'',
      ''Temporary service unavailable'', ''Invalid currency for recipient'']"

text \<open>
  \<open>createPayment\<close> resolves after \<open>latencyMs\<close> milliseconds; the model returns the delay
  together with the result.
\<close>

definition createPayment :: "fake_adapter \<Rightarrow> call_env \<Rightarrow> payment_row \<Rightarrow> nat \<times> payment_result" where
  "createPayment a env input =
     (let key = paymentKey input;
          rand = seededRandom a key in
      if of_nat rand / 1000 < successRate a then
        (latencyMs a,
         \<lparr>success = True,
          provider_id = Some (''fake_'' @ string_of_nat (dateNow env) @ ''_'' @ randomSuffix env),
          error = None,
          rawResponse = Some [(''provider'', JStr ''fake''), (''timestamp'', JStr (isoNow env)),
                              (''status'', JStr ''completed''), (''amount'', amount input),
                              (''currency'', currency input)]\<rparr>)
      else
        (let errorIndex = (seededRandom a (key @ ''_error'') * length adapterErrors) div 1000 in
         (latencyMs a,
          \<lparr>success = False,
           provider_id = None,
           error = Some (adapterErrors ! errorIndex),
           rawResponse = Some [(''provider'', JStr ''fake''), (''timestamp'', JStr (isoNow env)),
                               (''status'', JStr ''failed''),
                               (''reason'', JStr (adapterErrors ! errorIndex))]\<rparr>)))"

section \<open>Per-row retry procedure (worker: processPaymentRow)\<close>

text \<open>
  One call of the adapter either resolves to a \<open>PaymentResult\<close> or throws; what is thrown
  is an \<open>Error\<close> with a message or some other value.
\<close>

datatype thrown = ErrorObj string | NonError

datatype adapter_outcome = Resolves payment_result | Throws thrown

datatype event = Call nat | Wait nat

record row_result =
  rr_success :: bool
  rr_providerResponse :: "(string \<times> jsval) list option"
  rr_errorMessage :: "string option"
  rr_attempts :: int

datatype 'a settled = Fulfilled 'a | Rejected thrown

text \<open>\<open>new Error(result.error).message\<close>: an undefined argument gives the empty message.\<close>

definition errorMessageOf :: "string option \<Rightarrow> string" where
  "errorMessageOf e = (case e of None \<Rightarrow> [] | Some m \<Rightarrow> m)"

definition thrownMessage :: "thrown \<Rightarrow> string" where
  "thrownMessage t = (case t of ErrorObj m \<Rightarrow> m | NonError \<Rightarrow> ''Unknown error'')"

text \<open>\<open>lastError?.message || 'Payment processing failed'\<close>.\<close>

definition finalMessage :: "string option \<Rightarrow> string" where
  "finalMessage lastError =
     (case lastError of None \<Rightarrow> ''Payment processing failed''
      | Some m \<Rightarrow> if m = [] then ''Payment processing failed'' else m)"

definition backoffMs :: "int \<Rightarrow> nat" where
  "backoffMs attempts = 2 ^ nat (attempts - 1) * 1000"

text \<open>
  The \<open>while (attempts < maxRetries)\<close> loop, for an integer \<open>maxRetries\<close> (the worker
  passes \<open>parseInt\<close> of its configuration; a \<open>NaN\<close> there behaves as 0 does: the loop
  body never runs).  \<open>adapter k\<close> is the outcome of the \<open>k\<close>-th
  call of \<open>paymentsAdapter.createPayment\<close> for this row; the trace records every adapter
  call and every backoff wait (in milliseconds) in order.
\<close>

function retryLoop ::
  "(nat \<Rightarrow> adapter_outcome) \<Rightarrow> int \<Rightarrow> int \<Rightarrow> string option \<Rightarrow> event list
     \<Rightarrow> row_result settled \<times> event list" where
  "retryLoop adapter maxRetries attempts lastError trace =
     (if attempts < maxRetries then
        (let attempts' = attempts + 1;
             trace' = trace @ [Call (nat attempts')];
             backoff = (\<lambda>t. if attempts' < maxRetries then t @ [Wait (backoffMs attempts')] else t)
         in case adapter (nat attempts') of
              Resolves r \<Rightarrow>
                if success r then
                  (Fulfilled \<lparr>rr_success = True, rr_providerResponse = rawResponse r,
                              rr_errorMessage = None, rr_attempts = attempts'\<rparr>, trace')
                else retryLoop adapter maxRetries attempts' (Some (errorMessageOf (error r)))
                       (backoff trace')
            | Throws t \<Rightarrow>
                retryLoop adapter maxRetries attempts' (Some (thrownMessage t)) (backoff trace'))
      else
        (Fulfilled \<lparr>rr_success = False, rr_providerResponse = None,
                    rr_errorMessage = Some (finalMessage lastError), rr_attempts = attempts\<rparr>,
         trace))"
  by pat_completeness auto
termination
  by (relation "measure (\<lambda>(adapter, maxRetries, attempts, lastError, trace). nat (maxRetries - attempts))")
     auto

declare retryLoop.simps [simp del]

definition processPaymentRow ::
  "(nat \<Rightarrow> adapter_outcome) \<Rightarrow> int \<Rightarrow> row_result settled \<times> event list" where
  "processPaymentRow adapter maxRetries = retryLoop adapter maxRetries 0 None []"

text \<open>
  Vocabulary for statements about the retry procedure: whether a call outcome is a
  success, the message \<open>lastError\<close> gets from a failed call, and an adapter whose every
  call reports failure with the same error text.
\<close>

definition succeeds :: "adapter_outcome \<Rightarrow> bool" where
  "succeeds out = (case out of Resolves r \<Rightarrow> success r | Throws t \<Rightarrow> False)"

definition failureMessage :: "adapter_outcome \<Rightarrow> string" where
  "failureMessage out =
     (case out of Resolves r \<Rightarrow> errorMessageOf (error r) | Throws t \<Rightarrow> thrownMessage t)"

definition retryEvents :: "int \<Rightarrow> nat \<Rightarrow> event list" where
  "retryEvents mr k = Call k # (if int k < mr then [Wait (2 ^ (k - 1) * 1000)] else [])"

definition alwaysFails :: "string \<Rightarrow> nat \<Rightarrow> adapter_outcome" where
  "alwaysFails m k =
     Resolves \<lparr>success = False, provider_id = None, error = Some m, rawResponse = None\<rparr>"


section \<open>Persistent store (Prisma tables)\<close>

datatype job_status = QUEUED | PROCESSING | COMPLETED | FAILED | CANCELLED

datatype row_status = PENDING | SUCCESS | ROW_FAILED

record job =
  job_id :: string
  uploaderId :: string
  status :: job_status
  totalRows :: int
  validRows :: int
  invalidRows :: int
  processedRows :: int
  failedRows :: int
  startedAt :: "int option"
  completedAt :: "int option"

text \<open>
  \<open>normalized\<close> holds what the upload route stores, the text \<open>JSON.stringify(row)\<close>.
\<close>

record db_row =
  row_id :: string
  jobId :: string
  rowIndex :: int
  normalized :: string
  row_status :: row_status
  attempts :: int
  providerResponse :: "(string \<times> jsval) list option"
  errorMessage :: "string option"

record db =
  jobs :: "job list"
  rows :: "db_row list"

datatype worker_error = JobNotFound string | RecordNotFound

definition findJob :: "db \<Rightarrow> string \<Rightarrow> job option" where
  "findJob d i = find (\<lambda>j. job_id j = i) (jobs d)"

definition jobRows :: "db \<Rightarrow> string \<Rightarrow> db_row list" where
  "jobRows d i = filter (\<lambda>r. jobId r = i) (rows d)"

text \<open>\<open>prisma.*.update\<close> throws when no record has the id.\<close>

definition updateJob :: "db \<Rightarrow> string \<Rightarrow> (job \<Rightarrow> job) \<Rightarrow> worker_error + db" where
  "updateJob d i f =
     (if \<exists>j \<in> set (jobs d). job_id j = i
      then Inr (d\<lparr>jobs := map (\<lambda>j. if job_id j = i then f j else j) (jobs d)\<rparr>)
      else Inl RecordNotFound)"

definition updateRow :: "db \<Rightarrow> string \<Rightarrow> (db_row \<Rightarrow> db_row) \<Rightarrow> worker_error + db" where
  "updateRow d i f =
     (if \<exists>r \<in> set (rows d). row_id r = i
      then Inr (d\<lparr>rows := map (\<lambda>r. if row_id r = i then f r else r) (rows d)\<rparr>)
      else Inl RecordNotFound)"

section \<open>Job processor (worker: startWorker)\<close>

text \<open>
  The worker's configuration and surroundings: \<open>BATCH_SIZE\<close> (a natural number; a
  negative or non-numeric setting is outside the model) and \<open>MAX_RETRIES\<close> from the
  environment, the outcome of the \<open>k\<close>-th adapter call made for a row, and the instants
  \<open>new Date()\<close> returns when the job starts, completes or fails.
\<close>

record worker_env =
  BATCH_SIZE :: nat
  MAX_RETRIES :: int
  adapterCall :: "db_row \<Rightarrow> nat \<Rightarrow> adapter_outcome"
  startTime :: int
  endTime :: int
  failTime :: int

record counts =
  processedCount :: int
  successCount :: int
  failedCount :: int

text \<open>
  \<open>row.normalized as PaymentRow\<close>: the cast does not parse the stored text, and every
  property the adapter reads from a string is \<open>undefined\<close>.
\<close>

definition asPaymentRow :: "string \<Rightarrow> payment_row" where
  "asPaymentRow s =
     \<lparr>employee_id = JUndefined, employee_email = JUndefined, amount = JUndefined,
      currency = JUndefined, pay_date = JUndefined, description = JUndefined,
      external_reference = JUndefined\<rparr>"

text \<open>The module's adapter, \<open>new FakePaymentsAdapter({...})\<close>, as an \<open>adapterCall\<close>.\<close>

definition fakeAdapterCall :: "fake_adapter \<Rightarrow> (nat \<Rightarrow> call_env) \<Rightarrow> db_row \<Rightarrow> nat \<Rightarrow> adapter_outcome" where
  "fakeAdapterCall a envs row k = Resolves (snd (createPayment a (envs k) (asPaymentRow (normalized row))))"

definition rowStatusOf :: "bool \<Rightarrow> row_status" where
  "rowStatusOf ok = (if ok then SUCCESS else ROW_FAILED)"

text \<open>
  A field that the \<open>data\<close> of a \<open>prisma\<close> update gives as \<open>undefined\<close> keeps its stored
  value.
\<close>

definition keepIfUndefined :: "'a option \<Rightarrow> 'a option \<Rightarrow> 'a option" where
  "keepIfUndefined new old = (case new of None \<Rightarrow> old | Some x \<Rightarrow> Some x)"

text \<open>The loop over \<open>results\<close>: one row update per settled promise, then the counters.\<close>

fun settleRows ::
  "worker_env \<Rightarrow> (db_row \<times> row_result settled) list \<Rightarrow> counts \<Rightarrow> db
     \<Rightarrow> worker_error \<times> db + counts \<times> db" where
  "settleRows env [] c d = Inr (c, d)"
| "settleRows env ((row, Fulfilled v) # rest) c d =
     (case updateRow d (row_id row)
             (\<lambda>r. r\<lparr>row_status := rowStatusOf (rr_success v),
                    providerResponse := keepIfUndefined (rr_providerResponse v) (providerResponse r),
                    errorMessage := keepIfUndefined (rr_errorMessage v) (errorMessage r),
                    attempts := rr_attempts v\<rparr>) of
        Inl e \<Rightarrow> Inl (e, d)
      | Inr d' \<Rightarrow>
          settleRows env rest
            (if rr_success v
             then c\<lparr>successCount := successCount c + 1, processedCount := processedCount c + 1\<rparr>
             else c\<lparr>failedCount := failedCount c + 1, processedCount := processedCount c + 1\<rparr>)
            d')"
| "settleRows env ((row, Rejected reason) # rest) c d =
     (case updateRow d (row_id row)
             (\<lambda>r. r\<lparr>row_status := ROW_FAILED,
                    errorMessage := Some (thrownMessage reason),
                    attempts := MAX_RETRIES env\<rparr>) of
        Inl e \<Rightarrow> Inl (e, d)
      | Inr d' \<Rightarrow>
          settleRows env rest
            (c\<lparr>failedCount := failedCount c + 1, processedCount := processedCount c + 1\<rparr>) d')"

text \<open>
  One iteration of the batch loop: \<open>Promise.allSettled\<close> over the batch, the row updates,
  and the update of the job's progress counters.
\<close>

definition processBatch ::
  "worker_env \<Rightarrow> string \<Rightarrow> db_row list \<Rightarrow> counts \<Rightarrow> db \<Rightarrow> worker_error \<times> db + counts \<times> db" where
  "processBatch env jid batch c d =
     (let results = map (\<lambda>row. fst (processPaymentRow (adapterCall env row) (MAX_RETRIES env))) batch
      in case settleRows env (zip batch results) c d of
           Inl ed \<Rightarrow> Inl ed
         | Inr (c', d') \<Rightarrow>
             (case updateJob d' jid
                     (\<lambda>j. j\<lparr>processedRows := processedCount c', failedRows := failedCount c'\<rparr>) of
                Inl e \<Rightarrow> Inl (e, d')
              | Inr d'' \<Rightarrow> Inr (c', d'')))"

text \<open>
  \<open>for (let i = 0; i < rows.length; i += BATCH_SIZE)\<close>.  With \<open>BATCH_SIZE = 0\<close> the loop
  never ends: the value is then \<open>None\<close>.
\<close>

partial_function (option) batchLoop ::
  "worker_env \<Rightarrow> string \<Rightarrow> db_row list \<Rightarrow> nat \<Rightarrow> counts \<Rightarrow> db
     \<Rightarrow> (worker_error \<times> db + counts \<times> db) option" where
  "batchLoop env jid rs i c d =
     (if i < length rs then
        (case processBatch env jid (take (BATCH_SIZE env) (drop i rs)) c d of
           Inl ed \<Rightarrow> Some (Inl ed)
         | Inr (c', d') \<Rightarrow> batchLoop env jid rs (i + BATCH_SIZE env) c' d')
      else Some (Inr (c, d)))"

definition workerStart :: "worker_env \<Rightarrow> db \<Rightarrow> string \<Rightarrow> worker_error \<times> db + db_row list \<times> db" where
  "workerStart env d jid =
     (case findJob d jid of
        None \<Rightarrow> Inl (JobNotFound jid, d)
      | Some dbJob \<Rightarrow>
          (case updateJob d jid (\<lambda>j. j\<lparr>status := PROCESSING, startedAt := Some (startTime env)\<rparr>) of
             Inl e \<Rightarrow> Inl (e, d)
           | Inr d' \<Rightarrow> Inr (jobRows d jid, d')))"

definition workerFinish :: "worker_env \<Rightarrow> string \<Rightarrow> counts \<Rightarrow> db \<Rightarrow> worker_error \<times> db + counts \<times> db" where
  "workerFinish env jid c d =
     (case updateJob d jid
             (\<lambda>j. j\<lparr>status := COMPLETED, completedAt := Some (endTime env),
                    processedRows := processedCount c, failedRows := failedCount c\<rparr>) of
        Inl e \<Rightarrow> Inl (e, d)
      | Inr d' \<Rightarrow> Inr (c, d'))"

text \<open>The \<open>catch\<close> block: mark the job FAILED, then rethrow.\<close>

definition workerCatch :: "worker_env \<Rightarrow> string \<Rightarrow> worker_error \<times> db \<Rightarrow> worker_error \<times> db" where
  "workerCatch env jid ed =
     (case updateJob (snd ed) jid (\<lambda>j. j\<lparr>status := FAILED, completedAt := Some (failTime env)\<rparr>) of
        Inl e' \<Rightarrow> (e', snd ed)
      | Inr d' \<Rightarrow> (fst ed, d'))"

definition zeroCounts :: counts where
  "zeroCounts = \<lparr>processedCount = 0, successCount = 0, failedCount = 0\<rparr>"

text \<open>
  The processor callback for one dispatched unit of work.  \<open>None\<close>: the callback never
  returns; \<open>Some (Inl _)\<close>: it rejects; \<open>Some (Inr _)\<close>: it returns the summary.
\<close>

definition processJob :: "worker_env \<Rightarrow> db \<Rightarrow> string \<Rightarrow> (worker_error \<times> db + counts \<times> db) option" where
  "processJob env d jid =
     (case workerStart env d jid of
        Inl ed \<Rightarrow> Some (Inl (workerCatch env jid ed))
      | Inr (rs, d1) \<Rightarrow>
          (case batchLoop env jid rs 0 zeroCounts d1 of
             None \<Rightarrow> None
           | Some (Inl ed) \<Rightarrow> Some (Inl (workerCatch env jid ed))
           | Some (Inr (c, d2)) \<Rightarrow>
               (case workerFinish env jid c d2 of
                  Inl ed \<Rightarrow> Some (Inl (workerCatch env jid ed))
                | Inr cd \<Rightarrow> Some (Inr cd))))"

section \<open>Cancel operation (route: POST jobs/:id/cancel)\<close>

datatype http_response =
  JsonOk string job_status string
| JsonError string string nat

datatype app_error = UnauthorizedError string

text \<open>
  What the handler reads from its surroundings: the result of \<open>getUserFromRequest\<close> (a
  user id, or the error it throws) and whether \<open>REDIS_URL\<close> is set.
\<close>

record cancel_env =
  requestUser :: "app_error + string"
  redisUrl :: bool

fun statusName :: "job_status \<Rightarrow> string" where
  "statusName QUEUED = ''QUEUED''"
| "statusName PROCESSING = ''PROCESSING''"
| "statusName COMPLETED = ''COMPLETED''"
| "statusName FAILED = ''FAILED''"
| "statusName CANCELLED = ''CANCELLED''"

definition notFoundResponse :: http_response where
  "notFoundResponse = JsonError ''NOT_FOUND'' ''Job not found'' 404"

text \<open>
  The queue is the list of job ids of the units of work that wait for a worker.
\<close>

definition cancelJob ::
  "cancel_env \<Rightarrow> db \<Rightarrow> string list \<Rightarrow> string \<Rightarrow> http_response \<times> db \<times> string list" where
  "cancelJob env d queue jid =
     (case requestUser env of
        Inl (UnauthorizedError m) \<Rightarrow> (JsonError ''UNAUTHORIZED'' m 401, d, queue)
      | Inr uid \<Rightarrow>
          (case findJob d jid of
             None \<Rightarrow> (notFoundResponse, d, queue)
           | Some j \<Rightarrow>
               if uploaderId j \<noteq> uid then (notFoundResponse, d, queue)
               else if status j \<notin> set [QUEUED, PROCESSING] then
                 (JsonError ''INVALID_STATE'' (''Cannot cancel job with status '' @ statusName (status j)) 409,
                  d, queue)
               else
                 (let queue' = (if status j = QUEUED \<and> redisUrl env
                                then filter (\<lambda>q. q \<noteq> jid) queue else queue)
                  in case updateJob d jid (\<lambda>j. j\<lparr>status := CANCELLED\<rparr>) of
                       Inl e \<Rightarrow> (JsonError ''INTERNAL_ERROR'' ''Record to update not found'' 500, d, queue')
                     | Inr d' \<Rightarrow> (JsonOk jid CANCELLED ''Job cancelled successfully'', d', queue'))))"

section \<open>Vocabulary for statements about the job processor\<close>

text \<open>
  The state the batch loop has reached after at most \<open>k\<close> iterations: the same loop
  body, stopped after \<open>k\<close> rounds.
\<close>

fun batchPrefix ::
  "nat \<Rightarrow> worker_env \<Rightarrow> string \<Rightarrow> db_row list \<Rightarrow> nat \<Rightarrow> counts \<Rightarrow> db
     \<Rightarrow> worker_error \<times> db + counts \<times> db" where
  "batchPrefix 0 env jid rs i c d = Inr (c, d)"
| "batchPrefix (Suc k) env jid rs i c d =
     (if i < length rs then
        (case processBatch env jid (take (BATCH_SIZE env) (drop i rs)) c d of
           Inl ed \<Rightarrow> Inl ed
         | Inr (c', d') \<Rightarrow> batchPrefix k env jid rs (i + BATCH_SIZE env) c' d')
      else Inr (c, d))"

definition terminalRow :: "db_row \<Rightarrow> bool" where
  "terminalRow r = (row_status r = SUCCESS \<or> row_status r = ROW_FAILED)"

definition failedRow :: "db_row \<Rightarrow> bool" where
  "failedRow r = (row_status r = ROW_FAILED)"

text \<open>
  The persisted counters of a job agree with its rows: \<open>processedRows\<close> is the number
  of rows in SUCCESS or FAILED, \<open>failedRows\<close> the number of rows in FAILED.
\<close>

definition countersAgree :: "db \<Rightarrow> string \<Rightarrow> bool" where
  "countersAgree d jid =
     (case findJob d jid of
        None \<Rightarrow> False
      | Some j \<Rightarrow>
          processedRows j = int (length (filter terminalRow (jobRows d jid)))
          \<and> failedRows j = int (length (filter failedRow (jobRows d jid))))"

definition jobStatus :: "db \<Rightarrow> string \<Rightarrow> job_status option" where
  "jobStatus d jid = map_option status (findJob d jid)"

text \<open>
  Auxiliary notions for the proofs about the batch loop: the effect of a row update on
  the table, row updates that keep the keys, the invariant that links the worker's
  counters to the rows still to be processed, and a row whose first adapter call
  succeeds.
\<close>

definition updRows :: "string \<Rightarrow> (db_row \<Rightarrow> db_row) \<Rightarrow> db_row list \<Rightarrow> db_row list" where
  "updRows i f xs = map (\<lambda>r. if row_id r = i then f r else r) xs"

definition keepsKeys :: "(db_row \<Rightarrow> db_row) \<Rightarrow> bool" where
  "keepsKeys f = (\<forall>r. row_id (f r) = row_id r \<and> jobId (f r) = jobId r)"

definition rowsInv :: "string \<Rightarrow> db_row list \<Rightarrow> counts \<Rightarrow> db \<Rightarrow> bool" where
  "rowsInv jid pend c d =
     (distinct (map row_id (rows d))
      \<and> (\<exists>j \<in> set (jobs d). job_id j = jid)
      \<and> distinct (map row_id pend)
      \<and> (\<forall>p \<in> set pend. \<exists>r \<in> set (jobRows d jid). row_id r = row_id p \<and> row_status r = PENDING)
      \<and> processedCount c = int (length (filter terminalRow (jobRows d jid)))
      \<and> failedCount c = int (length (filter failedRow (jobRows d jid)))
      \<and> length (filter terminalRow (jobRows d jid)) + length pend = length (jobRows d jid))"

definition firstCallOk :: "worker_env \<Rightarrow> db_row \<Rightarrow> bool" where
  "firstCallOk env r = (1 \<le> MAX_RETRIES env \<and> succeeds (adapterCall env r 1))"

text \<open>
  A dispatched job whose cancellation arrives while the worker is between its first
  update and its first batch: the statuses the job has at the start, after the worker's
  first update, after the cancel request, after the batches and after the worker's last
  update.
\<close>

definition cancelWhileProcessing ::
  "worker_env \<Rightarrow> cancel_env \<Rightarrow> db \<Rightarrow> string \<Rightarrow> job_status option list" where
  "cancelWhileProcessing env cenv d0 jid =
     (case workerStart env d0 jid of
        Inl ed \<Rightarrow> []
      | Inr (rs, d1) \<Rightarrow>
          (case cancelJob cenv d1 [] jid of
             (resp, d2, q) \<Rightarrow>
               (case batchLoop env jid rs 0 zeroCounts d2 of
                  Some (Inr (c, d3)) \<Rightarrow>
                    (case workerFinish env jid c d3 of
                       Inr (c', d4) \<Rightarrow>
                         [jobStatus d0 jid, jobStatus d1 jid, jobStatus d2 jid,
                          jobStatus d3 jid, jobStatus d4 jid]
                     | Inl ed \<Rightarrow> [])
                | _ \<Rightarrow> [])))"

section \<open>Sample data\<close>

definition sampleJob :: "job_status \<Rightarrow> nat \<Rightarrow> job" where
  "sampleJob st n =
     \<lparr>job_id = ''job1'', uploaderId = ''user1'', status = st, totalRows = int n,
      validRows = int n, invalidRows = 0, processedRows = 0, failedRows = 0,
      startedAt = None, completedAt = None\<rparr>"

definition sampleRow :: "nat \<Rightarrow> db_row" where
  "sampleRow k =
     \<lparr>row_id = ''row'' @ string_of_nat k, jobId = ''job1'', rowIndex = int k,
      normalized = ''{}'', row_status = PENDING, attempts = 0,
      providerResponse = None, errorMessage = None\<rparr>"

definition sampleDb :: "job_status \<Rightarrow> nat \<Rightarrow> db" where
  "sampleDb st n = \<lparr>jobs = [sampleJob st n], rows = map sampleRow [0..<n]\<rparr>"

definition sampleEnv :: "(db_row \<Rightarrow> nat \<Rightarrow> adapter_outcome) \<Rightarrow> worker_env" where
  "sampleEnv ad =
     \<lparr>BATCH_SIZE = 10, MAX_RETRIES = 3, adapterCall = ad,
      startTime = 1000, endTime = 2000, failTime = 3000\<rparr>"

definition sampleCancelEnv :: cancel_env where
  "sampleCancelEnv = \<lparr>requestUser = Inr ''user1'', redisUrl = True\<rparr>"

section \<open>Strings and patterns (validation.ts)\<close>

text \<open>
  Strings are lists of 8-bit characters: the model covers ASCII input, where a
  JavaScript string's length is its number of characters.
\<close>

definition isDigit :: "char \<Rightarrow> bool" where
  "isDigit c = (c \<in> set ''0123456789'')"

definition isUpper :: "char \<Rightarrow> bool" where
  "isUpper c = (c \<in> set ''ABCDEFGHIJKLMNOPQRSTUVWXYZ'')"

definition isLower :: "char \<Rightarrow> bool" where
  "isLower c = (c \<in> set ''abcdefghijklmnopqrstuvwxyz'')"

text \<open>White space and line terminators: tab, line feed, VT, FF, carriage return, space.\<close>

definition isSpace :: "char \<Rightarrow> bool" where
  "isSpace c = (c \<in> set [CHR 0x09, CHR 0x0A, CHR 0x0B, CHR 0x0C, CHR 0x0D, CHR '' ''])"

definition upperChar :: "char \<Rightarrow> char" where
  "upperChar c =
     (case map_of (zip ''abcdefghijklmnopqrstuvwxyz'' ''ABCDEFGHIJKLMNOPQRSTUVWXYZ'') c of
        None \<Rightarrow> c
      | Some u \<Rightarrow> u)"

definition toUpperCase :: "string \<Rightarrow> string" where
  "toUpperCase s = map upperChar s"


definition trim :: "string \<Rightarrow> string" where
  "trim s = rev (dropWhile isSpace (rev (dropWhile isSpace s)))"

text \<open>\<open>/^\d+(\.\d{1,2})?$/\<close>, the pattern the amount's decimal string must match.\<close>

definition amountPattern :: "string \<Rightarrow> bool" where
  "amountPattern s =
     (let ip = takeWhile isDigit s; r = dropWhile isDigit s in
      ip \<noteq> [] \<and>
      (r = [] \<or>
       (hd r = CHR ''.'' \<and> 1 \<le> length (tl r) \<and> length (tl r) \<le> 2 \<and> list_all isDigit (tl r))))"

text \<open>\<open>/^\d{4}-\d{2}-\d{2}$/\<close>.\<close>

definition datePattern :: "string \<Rightarrow> bool" where
  "datePattern s =
     (length s = 10 \<and> list_all isDigit (take 4 s) \<and> s ! 4 = CHR ''-''
      \<and> list_all isDigit (take 2 (drop 5 s)) \<and> s ! 7 = CHR ''-''
      \<and> list_all isDigit (drop 8 s))"

text \<open>\<open>/^[A-Za-z0-9_-]{3,64}$|^$/\<close>.\<close>

definition employeeIdPattern :: "string \<Rightarrow> bool" where
  "employeeIdPattern s =
     (s = [] \<or>
      (3 \<le> length s \<and> length s \<le> 64
       \<and> list_all (\<lambda>c. isUpper c \<or> isLower c \<or> isDigit c \<or> c = CHR ''_'' \<or> c = CHR ''-'') s))"

definition ISO4217_CURRENCIES :: "string list" where
  "ISO4217_CURRENCIES =
     [''USD'', ''EUR'', ''GBP'', ''JPY'', ''CAD'', ''AUD'', ''CHF'', ''CNY'',
      ''SEK'', ''NZD'', ''MXN'', ''SGD'', ''HKD'', ''NOK'', ''KRW'', ''TRY'',
      ''RUB'', ''INR'', ''BRL'', ''ZAR'', ''AED'', ''SAR'', ''QAR'', ''KWD'',
      ''BHD'', ''OMR'', ''JOD'', ''ILS'', ''BGN'', ''HRK'', ''CZK'', ''DKK'',
      ''HUF'', ''PLN'', ''RON'', ''HKD'', ''IDR'', ''MYR'', ''PHP'', ''THB'',
      ''VND'', ''PKR'', ''BDT'', ''LKR'', ''MMK'', ''KHR'', ''LAK'']"

section \<open>String to number conversion\<close>

text \<open>
  \<open>Number(val)\<close> on a string, ECMA-262 \<open>StringToNumber\<close>: white space is trimmed, the
  empty string is 0, then \<open>Infinity\<close> with an optional sign, a binary, octal or
  hexadecimal integer, or a decimal literal with optional sign, fraction and exponent;
  anything else is \<open>NaN\<close>.  The value is kept as the exact decimal, shortened by its
  trailing zeros.  That is the number JavaScript computes as long as the literal has at
  most 15 significant digits and a magnitude within the range of doubles; beyond that
  JavaScript rounds and the model does not.
\<close>

definition digitVal :: "char \<Rightarrow> nat" where
  "digitVal c =
     (case map_of [(CHR ''0'', 0), (CHR ''1'', 1), (CHR ''2'', 2), (CHR ''3'', 3), (CHR ''4'', 4),
                   (CHR ''5'', 5), (CHR ''6'', 6), (CHR ''7'', 7), (CHR ''8'', 8), (CHR ''9'', 9)] c of
        None \<Rightarrow> 0
      | Some v \<Rightarrow> v)"

definition natOfDigits :: "string \<Rightarrow> nat" where
  "natOfDigits s = foldl (\<lambda>a c. 10 * a + digitVal c) 0 s"

function normDecimal :: "nat \<Rightarrow> int \<Rightarrow> nat \<times> int" where
  "normDecimal m e =
     (if m = 0 then (0, 0)
      else if m mod 10 = 0 then normDecimal (m div 10) (e + 1)
      else (m, e))"
  by pat_completeness auto
termination
  by (relation "measure (\<lambda>(m, e). m)") auto

declare normDecimal.simps [simp del]

definition mkFin :: "bool \<Rightarrow> nat \<Rightarrow> int \<Rightarrow> jsnum" where
  "mkFin neg m e =
     (case normDecimal m e of (m', e') \<Rightarrow> Fin (if neg then - int m' else int m') e')"

definition hexVal :: "char \<Rightarrow> nat option" where
  "hexVal c =
     (if isDigit c then Some (digitVal c)
      else map_of [(CHR ''a'', 10), (CHR ''b'', 11), (CHR ''c'', 12), (CHR ''d'', 13),
                   (CHR ''e'', 14), (CHR ''f'', 15), (CHR ''A'', 10), (CHR ''B'', 11),
                   (CHR ''C'', 12), (CHR ''D'', 13), (CHR ''E'', 14), (CHR ''F'', 15)] c)"

definition radixLiteral :: "nat \<Rightarrow> string \<Rightarrow> jsnum" where
  "radixLiteral b ds =
     (if ds \<noteq> [] \<and> list_all (\<lambda>c. case hexVal c of None \<Rightarrow> False | Some v \<Rightarrow> v < b) ds
      then mkFin False (foldl (\<lambda>a c. b * a + the (hexVal c)) 0 ds) 0
      else NaN)"

text \<open>The exponent part: \<open>e\<close> or \<open>E\<close>, an optional sign, and at least one digit.\<close>

definition exponentPart :: "string \<Rightarrow> int option" where
  "exponentPart r =
     (if r = [] then Some 0
      else if hd r \<noteq> CHR ''e'' \<and> hd r \<noteq> CHR ''E'' then None
      else
        (let t = tl r;
             neg = (t \<noteq> [] \<and> hd t = CHR ''-'');
             ds = (if t \<noteq> [] \<and> (hd t = CHR ''-'' \<or> hd t = CHR ''+'') then tl t else t)
         in if ds \<noteq> [] \<and> list_all isDigit ds
            then Some (if neg then - int (natOfDigits ds) else int (natOfDigits ds))
            else None))"

definition unsignedDecimal :: "bool \<Rightarrow> string \<Rightarrow> jsnum" where
  "unsignedDecimal neg s =
     (if s = ''Infinity'' then Infinite neg
      else
        (let ip = takeWhile isDigit s;
             r1 = dropWhile isDigit s;
             dot = (r1 \<noteq> [] \<and> hd r1 = CHR ''.'');
             fp = (if dot then takeWhile isDigit (tl r1) else []);
             r2 = (if dot then dropWhile isDigit (tl r1) else r1)
         in if ip = [] \<and> fp = [] then NaN
            else (case exponentPart r2 of
                    None \<Rightarrow> NaN
                  | Some ex \<Rightarrow> mkFin neg (natOfDigits (ip @ fp)) (ex - int (length fp)))))"

definition stringToNumber :: "string \<Rightarrow> jsnum" where
  "stringToNumber s0 =
     (let s = trim s0 in
      if s = [] then Fin 0 0
      else if take 2 s = ''0x'' \<or> take 2 s = ''0X'' then radixLiteral 16 (drop 2 s)
      else if take 2 s = ''0o'' \<or> take 2 s = ''0O'' then radixLiteral 8 (drop 2 s)
      else if take 2 s = ''0b'' \<or> take 2 s = ''0B'' then radixLiteral 2 (drop 2 s)
      else if hd s = CHR ''-'' then unsignedDecimal True (tl s)
      else if hd s = CHR ''+'' then unsignedDecimal False (tl s)
      else unsignedDecimal False s)"

text \<open>The value of \<open>Fin m e\<close>, for the comparisons \<open>> 0\<close> and \<open>\<le> 1000000\<close>.\<close>

definition finValue :: "int \<Rightarrow> int \<Rightarrow> rat" where
  "finValue m e = (if 0 \<le> e then of_int m * 10 ^ nat e else of_int m / 10 ^ nat (- e))"

fun numGreater0 :: "jsnum \<Rightarrow> bool" where
  "numGreater0 NaN = False"
| "numGreater0 (Infinite neg) = (\<not> neg)"
| "numGreater0 (Fin m e) = (0 < finValue m e)"

fun numAtMost :: "jsnum \<Rightarrow> int \<Rightarrow> bool" where
  "numAtMost NaN k = False"
| "numAtMost (Infinite neg) k = neg"
| "numAtMost (Fin m e) k = (finValue m e \<le> of_int k)"

section \<open>Row schema (validation.ts: PaymentRowSchema, RawPaymentRowSchema)\<close>

text \<open>
  What validation takes from its surroundings: the instant of the call, the offset of
  local time from UTC in minutes (taken constant, without daylight-saving changes),
  the engine's \<open>new Date(s).getTime()\<close> (\<open>None\<close> for an invalid date) and the email
  pattern of the schema library.
\<close>

record platform =
  nowMs :: int
  tzOffsetMin :: int
  dateParse :: "string \<Rightarrow> int option"
  isEmail :: "string \<Rightarrow> bool"

record issue =
  path :: "string option"
  message :: string

datatype field_res = FValid jsval | FDirty jsval "issue list" | FAborted "issue list"

datatype parse_result = Success payment_row | Failure "issue list"

definition fieldIssue :: "string \<Rightarrow> string \<Rightarrow> issue" where
  "fieldIssue f m = \<lparr>path = Some f, message = m\<rparr>"

fun typeName :: "jsval \<Rightarrow> string" where
  "typeName JUndefined = ''undefined''"
| "typeName JNull = ''null''"
| "typeName (JStr s) = ''string''"
| "typeName (JNum NaN) = ''nan''"
| "typeName (JNum x) = ''number''"

text \<open>The issue of a value of the wrong type; a missing value is reported as \<open>Required\<close>.\<close>

definition typeIssue :: "string \<Rightarrow> string \<Rightarrow> jsval \<Rightarrow> issue" where
  "typeIssue f expected v =
     fieldIssue f (if v = JUndefined then ''Required''
                   else ''Expected '' @ expected @ '', received '' @ typeName v)"

definition dayMs :: int where
  "dayMs = 86400000"

text \<open>
  \<open>today.setHours(0, 0, 0, 0)\<close>: the instant of the last local midnight.
\<close>

definition localMidnight :: "platform \<Rightarrow> int" where
  "localMidnight pf =
     ((nowMs pf + tzOffsetMin pf * 60000) div dayMs) * dayMs - tzOffsetMin pf * 60000"

text \<open>
  The second refinement of \<open>pay_date\<close> (its message is written here in ASCII, with \<open>+-\<close>
  for the plus-minus sign of the source): \<open>date >= minDate && date <= maxDate\<close>, false for an
  invalid date.
\<close>

definition payDateInRange :: "platform \<Rightarrow> string \<Rightarrow> bool" where
  "payDateInRange pf v =
     (case dateParse pf v of
        None \<Rightarrow> False
      | Some date \<Rightarrow>
          (let today = localMidnight pf;
               minDate = today - 30 * dayMs;
               maxDate = today + 365 * dayMs
           in minDate \<le> date \<and> date \<le> maxDate))"

definition payDateIssues :: "platform \<Rightarrow> string \<Rightarrow> issue list" where
  "payDateIssues pf v =
     (if datePattern v then [] else [fieldIssue ''pay_date'' ''pay_date must be in YYYY-MM-DD format''])
     @ (if payDateInRange pf v then []
        else [fieldIssue ''pay_date''
                ''pay_date must be within +-30 days from today (past) and +365 days (future)''])"

text \<open>
  The checks of \<open>amount\<close>: \<open>positive\<close>, \<open>max(1000000)\<close> and the refinement on
  \<open>val.toString()\<close>; every failed check adds its issue.
\<close>

definition amountIssues :: "jsnum \<Rightarrow> issue list" where
  "amountIssues x =
     (if numGreater0 x then [] else [fieldIssue ''amount'' ''Amount must be greater than 0''])
     @ (if numAtMost x 1000000 then [] else [fieldIssue ''amount'' ''Amount cannot exceed 1,000,000''])
     @ (if amountPattern (numberToString x) then []
        else [fieldIssue ''amount'' ''Amount must have at most 2 decimal places''])"

definition withIssues :: "jsval \<Rightarrow> issue list \<Rightarrow> field_res" where
  "withIssues v is = (if is = [] then FValid v else FDirty v is)"

text \<open>The fields of \<open>PaymentRowSchema\<close>, one function each.\<close>

definition employeeIdField :: "jsval \<Rightarrow> field_res" where
  "employeeIdField v =
     (case v of
        JUndefined \<Rightarrow> FValid v
      | JNull \<Rightarrow> FValid v
      | JStr s \<Rightarrow> withIssues v (if employeeIdPattern s then [] else [fieldIssue ''employee_id'' ''Invalid''])
      | JNum x \<Rightarrow> FAborted [typeIssue ''employee_id'' ''string'' v])"

definition employeeEmailField :: "platform \<Rightarrow> jsval \<Rightarrow> field_res" where
  "employeeEmailField pf v =
     (case v of
        JUndefined \<Rightarrow> FValid v
      | JNull \<Rightarrow> FValid v
      | JStr s \<Rightarrow> withIssues v (if isEmail pf s then [] else [fieldIssue ''employee_email'' ''Invalid email''])
      | JNum x \<Rightarrow> FAborted [typeIssue ''employee_email'' ''string'' v])"

definition amountField :: "jsval \<Rightarrow> field_res" where
  "amountField v =
     (case v of
        JNum x \<Rightarrow> if x = NaN then FAborted [typeIssue ''amount'' ''number'' v]
                  else withIssues v (amountIssues x)
      | _ \<Rightarrow> FAborted [typeIssue ''amount'' ''number'' v])"

text \<open>
  \<open>currency\<close>: the length check, the transform to upper case (not applied to a value
  that already has an issue) and the membership refinement.
\<close>

definition currencyField :: "jsval \<Rightarrow> field_res" where
  "currencyField v =
     (case v of
        JStr s \<Rightarrow>
          (let lenIssues = (if length s = 3 then []
                            else [fieldIssue ''currency'' ''Currency code must be 3 characters'']);
               val = (if lenIssues = [] then toUpperCase s else s)
           in withIssues (JStr val)
                (lenIssues @ (if val \<in> set ISO4217_CURRENCIES then []
                              else [fieldIssue ''currency'' ''Invalid ISO 4217 currency code''])))
      | _ \<Rightarrow> FAborted [typeIssue ''currency'' ''string'' v])"

definition payDateField :: "platform \<Rightarrow> jsval \<Rightarrow> field_res" where
  "payDateField pf v =
     (case v of
        JStr s \<Rightarrow> withIssues v (payDateIssues pf s)
      | _ \<Rightarrow> FAborted [typeIssue ''pay_date'' ''string'' v])"

definition descriptionField :: "jsval \<Rightarrow> field_res" where
  "descriptionField v =
     (case v of
        JUndefined \<Rightarrow> FValid v
      | JNull \<Rightarrow> FValid v
      | JStr s \<Rightarrow> withIssues v (if length s \<le> 255 then []
                                 else [fieldIssue ''description''
                                         ''String must contain at most 255 character(s)''])
      | JNum x \<Rightarrow> FAborted [typeIssue ''description'' ''string'' v])"

definition externalReferenceField :: "jsval \<Rightarrow> field_res" where
  "externalReferenceField v =
     (case v of
        JNum x \<Rightarrow> FAborted [typeIssue ''external_reference'' ''string'' v]
      | _ \<Rightarrow> FValid v)"

fun issuesOf :: "field_res \<Rightarrow> issue list" where
  "issuesOf (FValid v) = []"
| "issuesOf (FDirty v is) = is"
| "issuesOf (FAborted is) = is"

fun isAborted :: "field_res \<Rightarrow> bool" where
  "isAborted (FAborted is) = True"
| "isAborted r = False"

fun valueOf :: "field_res \<Rightarrow> jsval" where
  "valueOf (FValid v) = v"
| "valueOf (FDirty v is) = v"
| "valueOf (FAborted is) = JUndefined"

definition rowLevelIssue :: issue where
  "rowLevelIssue =
     \<lparr>path = None, message = ''At least one of employee_id or employee_email must be provided''\<rparr>"

text \<open>
  \<open>z.object({...}).refine(...)\<close>: every field is parsed and its issues collected; when a
  field is aborted (a value of the wrong type) the object is invalid and the
  refinement does not run; otherwise the refinement runs, also on an object that
  already has issues.
\<close>

definition PaymentRowSchema :: "platform \<Rightarrow> payment_row \<Rightarrow> parse_result" where
  "PaymentRowSchema pf c =
     (let fs = [employeeIdField (employee_id c), employeeEmailField pf (employee_email c),
                amountField (amount c), currencyField (currency c),
                payDateField pf (pay_date c), descriptionField (description c),
                externalReferenceField (external_reference c)];
          fieldIssues = concat (map issuesOf fs)
      in if list_ex isAborted fs then Failure fieldIssues
         else
           (let data = \<lparr>employee_id = valueOf (fs ! 0), employee_email = valueOf (fs ! 1),
                        amount = valueOf (fs ! 2), currency = valueOf (fs ! 3),
                        pay_date = valueOf (fs ! 4), description = valueOf (fs ! 5),
                        external_reference = valueOf (fs ! 6)\<rparr>;
                all = fieldIssues
                      @ (if truthy (js_or (employee_id data) (employee_email data)) then []
                         else [rowLevelIssue])
            in if all = [] then Success data else Failure all))"

text \<open>The fields of the first stage, \<open>RawPaymentRowSchema\<close> before its \<open>pipe\<close>.\<close>

definition rawOptionalString :: "string \<Rightarrow> jsval \<Rightarrow> field_res" where
  "rawOptionalString f v =
     (case v of
        JUndefined \<Rightarrow> FValid (JStr [])
      | JNull \<Rightarrow> FValid JNull
      | JStr s \<Rightarrow> FValid v
      | JNum x \<Rightarrow> FAborted [typeIssue f ''string'' v])"

definition rawAmountField :: "jsval \<Rightarrow> field_res" where
  "rawAmountField v =
     (case v of
        JStr s \<Rightarrow> if stringToNumber s = NaN
                  then FDirty v [fieldIssue ''amount'' ''amount must be a valid number'']
                  else FValid (JNum (stringToNumber s))
      | JNum x \<Rightarrow> if x = NaN then FAborted [fieldIssue ''amount'' ''Invalid input''] else FValid v
      | _ \<Rightarrow> FAborted [fieldIssue ''amount'' ''Invalid input''])"

definition rawRequiredString :: "string \<Rightarrow> (string \<Rightarrow> string) \<Rightarrow> jsval \<Rightarrow> field_res" where
  "rawRequiredString f transform v =
     (case v of
        JStr s \<Rightarrow> FValid (JStr (transform s))
      | _ \<Rightarrow> FAborted [typeIssue f ''string'' v])"

definition rawFields :: "payment_row \<Rightarrow> field_res list" where
  "rawFields c =
     [rawOptionalString ''employee_id'' (employee_id c),
      rawOptionalString ''employee_email'' (employee_email c),
      rawAmountField (amount c),
      rawRequiredString ''currency'' (\<lambda>s. toUpperCase (trim s)) (currency c),
      rawRequiredString ''pay_date'' trim (pay_date c),
      rawOptionalString ''description'' (description c),
      rawOptionalString ''external_reference'' (external_reference c)]"

text \<open>
  \<open>RawPaymentRowSchema.safeParse\<close>: the first stage, and, only when it leaves no issue,
  \<open>PaymentRowSchema\<close> on its output.
\<close>

definition RawPaymentRowSchema :: "platform \<Rightarrow> payment_row \<Rightarrow> parse_result" where
  "RawPaymentRowSchema pf c =
     (let fs = rawFields c; rawIssues = concat (map issuesOf fs)
      in if rawIssues \<noteq> [] \<or> list_ex isAborted fs then Failure rawIssues
         else PaymentRowSchema pf
                \<lparr>employee_id = valueOf (fs ! 0), employee_email = valueOf (fs ! 1),
                 amount = valueOf (fs ! 2), currency = valueOf (fs ! 3),
                 pay_date = valueOf (fs ! 4), description = valueOf (fs ! 5),
                 external_reference = valueOf (fs ! 6)\<rparr>)"

section \<open>Batch validation (csv-parser.ts: validatePayrollRows)\<close>

text \<open>
  A raw row and a column mapping are JavaScript objects, modelled as association lists;
  a property that is absent reads as \<open>undefined\<close>, a mapping entry is a column name or
  \<open>null\<close>.
\<close>

type_synonym raw_row = "(string \<times> jsval) list"





record validation_error =
  ve_rowIndex :: nat
  ve_field :: "string option"
  ve_error :: string

record parsed_csv =
  headers :: "string list"
  totalRows :: nat
  validRows :: "payment_row list"
  invalidRows :: "(nat \<times> raw_row \<times> validation_error list) list"
  duplicates :: "(nat \<times> raw_row \<times> nat) list"






section \<open>Vocabulary for statements about validation\<close>



text \<open>An identifier that is missing or empty.\<close>

definition idMissing :: "jsval \<Rightarrow> bool" where
  "idMissing v = (v = JUndefined \<or> v = JNull \<or> v = JStr [])"

text \<open>The first stage of \<open>RawPaymentRowSchema\<close> leaves no issue.\<close>

definition coercionPasses :: "payment_row \<Rightarrow> bool" where
  "coercionPasses c = (concat (map issuesOf (rawFields c)) = [] \<and> \<not> list_ex isAborted (rawFields c))"

fun issuesOfResult :: "parse_result \<Rightarrow> issue list" where
  "issuesOfResult (Success d) = []"
| "issuesOfResult (Failure is) = is"










section \<open>A sample platform\<close>

text \<open>
  Days between 1970-01-01 and a civil date of the proleptic Gregorian calendar; a day
  number beyond the end of the month counts on into the next month.
\<close>

definition daysFromCivil :: "int \<Rightarrow> int \<Rightarrow> int \<Rightarrow> int" where
  "daysFromCivil y m d =
     (let y' = (if m \<le> 2 then y - 1 else y);
          era = y' div 400;
          yoe = y' - era * 400;
          mp = (m + 9) mod 12;
          doy = (153 * mp + 2) div 5 + d - 1;
          doe = yoe * 365 + yoe div 4 - yoe div 100 + doy
      in era * 146097 + doe - 719468)"

text \<open>
  \<open>new Date(s).getTime()\<close> of the V8 engine on a date-only ISO string: UTC midnight of
  the date, with months 1 to 12 and days 1 to 31 (an impossible day such as February 30
  is carried into the next month).  A string of another shape goes to the engine's
  legacy parser, which this function does not model: it answers \<open>None\<close>.
\<close>

definition isoDateParse :: "string \<Rightarrow> int option" where
  "isoDateParse s =
     (if datePattern s then
        (let y = int (natOfDigits (take 4 s));
             m = int (natOfDigits (take 2 (drop 5 s)));
             d = int (natOfDigits (drop 8 s))
         in if 1 \<le> m \<and> m \<le> 12 \<and> 1 \<le> d \<and> d \<le> 31
            then Some (daysFromCivil y m d * dayMs) else None)
      else None)"

fun splitOn :: "char \<Rightarrow> string \<Rightarrow> string list" where
  "splitOn c [] = [[]]"
| "splitOn c (x # xs) =
     (if x = c then [] # splitOn c xs
      else (case splitOn c xs of [] \<Rightarrow> [[x]] | p # ps \<Rightarrow> (x # p) # ps))"

definition isAlnum :: "char \<Rightarrow> bool" where
  "isAlnum c = (isUpper c \<or> isLower c \<or> isDigit c)"

fun hasDotDot :: "string \<Rightarrow> bool" where
  "hasDotDot (a # b # rest) = ((a = CHR ''.'' \<and> b = CHR ''.'') \<or> hasDotDot (b # rest))"
| "hasDotDot s = False"

text \<open>
  The email pattern of zod 3.22, the version the project lists:
  \<open>/^(?!\.)(?!.*\.\.)([A-Z0-9_+-\.]*)[A-Z0-9_+-]@([A-Z0-9][A-Z0-9\-]*\.)+[A-Z]{2,}$/i\<close>.
\<close>

definition zodEmailPattern :: "string \<Rightarrow> bool" where
  "zodEmailPattern s =
     (let local = takeWhile (\<lambda>c. c \<noteq> CHR ''@'') s;
          rest = dropWhile (\<lambda>c. c \<noteq> CHR ''@'') s;
          labels = splitOn (CHR ''.'') (tl rest)
      in rest \<noteq> [] \<and> local \<noteq> [] \<and> hd s \<noteq> CHR ''.'' \<and> \<not> hasDotDot s
         \<and> list_all (\<lambda>c. isAlnum c \<or> c \<in> set ''_+,-.'') (butlast local)
         \<and> (isAlnum (last local) \<or> last local \<in> set ''_+-'')
         \<and> 2 \<le> length labels
         \<and> list_all (\<lambda>l. l \<noteq> [] \<and> isAlnum (hd l) \<and> list_all (\<lambda>c. isAlnum c \<or> c = CHR ''-'') (tl l))
              (butlast labels)
         \<and> 2 \<le> length (last labels)
         \<and> list_all (\<lambda>c. isUpper c \<or> isLower c) (last labels))"

text \<open>
  The instant 2025-11-02T06:30:00Z, read in a zone at the given offset from UTC.
\<close>

definition samplePlatform :: "int \<Rightarrow> platform" where
  "samplePlatform tz =
     \<lparr>nowMs = 1762065000000, tzOffsetMin = tz, dateParse = isoDateParse,
      isEmail = zodEmailPattern\<rparr>"

text \<open>
  A candidate row with an email address, a currency and a pay date that pass, and the
  same row without any identifier.
\<close>

definition sampleCandidate :: "jsval \<Rightarrow> payment_row" where
  "sampleCandidate amt =
     \<lparr>employee_id = JUndefined, employee_email = JStr ''jane.doe@example.com'',
      amount = amt, currency = JStr ''usd'', pay_date = JStr ''2025-11-03'',
      description = JUndefined, external_reference = JUndefined\<rparr>"

definition anonymousCandidate :: "jsval \<Rightarrow> payment_row" where
  "anonymousCandidate amt = (sampleCandidate amt)\<lparr>employee_email := JUndefined\<rparr>"



section \<open>Properties of the payment adapter\<close>

lemma createPayment_outcome:
  "success (snd (createPayment a env input)) = (of_nat (seededRandom a (paymentKey input)) / 1000 < successRate a)"
  "error (snd (createPayment a env input)) =
     (if of_nat (seededRandom a (paymentKey input)) / 1000 < successRate a then None
      else Some (adapterErrors ! ((seededRandom a (paymentKey input @ ''_error'') * length adapterErrors) div 1000)))"
  "fst (createPayment a env input) = latencyMs a"
  by (simp_all add: createPayment_def Let_def)

text \<open>
  Claim C9.  Two fake adapters built with the same seed and the same success rate give,
  for the same payment row, the same success flag and the same error text, whatever
  their latencies and whatever the clock and the random source return at each
  invocation; the latency is the time the call waits and nothing else.
\<close>

theorem createPayment_deterministic:
  "success (snd (createPayment \<lparr>successRate = r, latencyMs = l1, seed = s\<rparr> env1 row))
     = success (snd (createPayment \<lparr>successRate = r, latencyMs = l2, seed = s\<rparr> env2 row))
   \<and> error (snd (createPayment \<lparr>successRate = r, latencyMs = l1, seed = s\<rparr> env1 row))
     = error (snd (createPayment \<lparr>successRate = r, latencyMs = l2, seed = s\<rparr> env2 row))
   \<and> fst (createPayment \<lparr>successRate = r, latencyMs = l1, seed = s\<rparr> env1 row) = l1"
  by (simp add: createPayment_outcome seededRandom_def)

section \<open>Properties of the per-row retry procedure\<close>

lemma retryLoop_fulfilled:
  "\<exists>r tr. retryLoop adapter mr n le trace = (Fulfilled r, tr)
      \<and> n \<le> rr_attempts r
      \<and> (n < mr \<longrightarrow> n < rr_attempts r \<and> rr_attempts r \<le> mr)
      \<and> (\<not> n < mr \<longrightarrow> rr_attempts r = n \<and> tr = trace \<and> \<not> rr_success r
            \<and> rr_errorMessage r = Some (finalMessage le) \<and> rr_providerResponse r = None)"
proof (induction adapter mr n le trace rule: retryLoop.induct)
  case (1 adapter mr n le trace)
  show ?case
  proof (cases "n < mr")
    case False
    then show ?thesis by (simp add: retryLoop.simps)
  next
    case True
    show ?thesis
    proof (cases "adapter (nat (n + 1))")
      case (Resolves r)
      show ?thesis
      proof (cases "success r")
        case True
        with \<open>n < mr\<close> Resolves show ?thesis
          by (subst retryLoop.simps) (simp add: Let_def)
      next
        case False
        from "1.IH"(1)[OF \<open>n < mr\<close> refl refl refl Resolves False]
        obtain r' tr' where *: "retryLoop adapter mr (n + 1) (Some (errorMessageOf (error r)))
           ((if n + 1 < mr then (trace @ [Call (nat (n + 1))]) @ [Wait (backoffMs (n + 1))] else trace @ [Call (nat (n + 1))])) = (Fulfilled r', tr')"
          and **: "n + 1 \<le> rr_attempts r'" 
           "n + 1 < mr \<longrightarrow> n + 1 < rr_attempts r' \<and> rr_attempts r' \<le> mr"
           "\<not> n + 1 < mr \<longrightarrow> rr_attempts r' = n + 1"
          by auto
        from * ** \<open>n < mr\<close> Resolves False show ?thesis
          by (subst retryLoop.simps) (auto simp add: Let_def)
      qed
    next
      case (Throws t)
      from "1.IH"(2)[OF \<open>n < mr\<close> refl refl refl Throws]
      obtain r' tr' where *: "retryLoop adapter mr (n + 1) (Some (thrownMessage t))
           ((if n + 1 < mr then (trace @ [Call (nat (n + 1))]) @ [Wait (backoffMs (n + 1))] else trace @ [Call (nat (n + 1))])) = (Fulfilled r', tr')"
          and **: "n + 1 \<le> rr_attempts r'" 
           "n + 1 < mr \<longrightarrow> n + 1 < rr_attempts r' \<and> rr_attempts r' \<le> mr"
           "\<not> n + 1 < mr \<longrightarrow> rr_attempts r' = n + 1"
        by auto
      from * ** \<open>n < mr\<close> Throws show ?thesis
        by (subst retryLoop.simps) (auto simp add: Let_def)
    qed
  qed
qed

lemma retryLoop_all_fail:
  "\<forall>k. n < int k \<and> int k \<le> mr \<longrightarrow> \<not> succeeds (adapter k) \<Longrightarrow> 0 \<le> n \<Longrightarrow>
   retryLoop adapter mr n le trace =
     (Fulfilled \<lparr>rr_success = False, rr_providerResponse = None,
                 rr_errorMessage = Some (finalMessage (if n < mr then Some (failureMessage (adapter (nat mr))) else le)),
                 rr_attempts = max n mr\<rparr>,
      trace @ concat (map (retryEvents mr) [Suc (nat n)..<Suc (nat mr)]))"
proof (induction adapter mr n le trace rule: retryLoop.induct)
  case (1 adapter mr n le trace)
  show ?case
  proof (cases "n < mr")
    case False
    then have "nat mr \<le> nat n" by simp
    with False show ?thesis by (simp add: retryLoop.simps)
  next
    case True
    let ?k = "nat (n + 1)"
    have k: "n < int ?k" "int ?k \<le> mr" "int ?k = n + 1" using True "1.prems" by auto
    then have nf: "\<not> succeeds (adapter ?k)" using "1.prems" by blast
    have later: "\<forall>k. n + 1 < int k \<and> int k \<le> mr \<longrightarrow> \<not> succeeds (adapter k)"
      using "1.prems" by auto
    have ksuc: "?k = Suc (nat n)" using "1.prems"(2) by arith
    have klt: "Suc (nat n) < Suc (nat mr)" using True "1.prems"(2) by arith
    have range: "[Suc (nat n)..<Suc (nat mr)] = ?k # [Suc (nat (n + 1))..<Suc (nat mr)]"
      unfolding ksuc using klt by (rule upt_conv_Cons)
    have ev: "retryEvents mr ?k = Call ?k # (if n + 1 < mr then [Wait (backoffMs (n + 1))] else [])"
    proof -
      have "nat (n + 1) - 1 = nat (n + 1 - 1)" using "1.prems"(2) by arith
      then show ?thesis unfolding retryEvents_def backoffMs_def k(3) by simp
    qed
    have msg: "\<not> n + 1 < mr \<Longrightarrow> nat mr = ?k" using True by auto
    show ?thesis
    proof (cases "adapter ?k")
      case (Resolves r)
      with nf have ns: "\<not> success r" by (simp add: succeeds_def)
      have ih: "retryLoop adapter mr (n + 1) (Some (errorMessageOf (error r)))
           ((if n + 1 < mr then (trace @ [Call ?k]) @ [Wait (backoffMs (n + 1))] else trace @ [Call ?k])) =
         (Fulfilled \<lparr>rr_success = False, rr_providerResponse = None,
                 rr_errorMessage = Some (finalMessage (if n + 1 < mr then Some (failureMessage (adapter (nat mr))) else Some (errorMessageOf (error r)))),
                 rr_attempts = max (n + 1) mr\<rparr>,
          (if n + 1 < mr then (trace @ [Call ?k]) @ [Wait (backoffMs (n + 1))] else trace @ [Call ?k]) @ concat (map (retryEvents mr) [Suc (nat (n + 1))..<Suc (nat mr)]))"
        using "1.IH"(1)[OF True refl refl refl Resolves ns later] "1.prems"(2) by simp
      show ?thesis
        apply (subst retryLoop.simps)
        apply (simp only: True if_True Let_def Resolves adapter_outcome.case ns if_False ih range ev)
        using True msg Resolves
        apply (cases "n + 1 < mr")
         apply (simp_all add: failureMessage_def ev)
        done
    next
      case (Throws t)
      have ih: "retryLoop adapter mr (n + 1) (Some (thrownMessage t))
           ((if n + 1 < mr then (trace @ [Call ?k]) @ [Wait (backoffMs (n + 1))] else trace @ [Call ?k])) =
         (Fulfilled \<lparr>rr_success = False, rr_providerResponse = None,
                 rr_errorMessage = Some (finalMessage (if n + 1 < mr then Some (failureMessage (adapter (nat mr))) else Some (thrownMessage t))),
                 rr_attempts = max (n + 1) mr\<rparr>,
          (if n + 1 < mr then (trace @ [Call ?k]) @ [Wait (backoffMs (n + 1))] else trace @ [Call ?k]) @ concat (map (retryEvents mr) [Suc (nat (n + 1))..<Suc (nat mr)]))"
        using "1.IH"(2)[OF True refl refl refl Throws later] "1.prems"(2) by simp
      show ?thesis
        apply (subst retryLoop.simps)
        apply (simp only: True if_True Let_def Throws adapter_outcome.case if_False ih range ev)
        using True msg Throws
        apply (cases "n + 1 < mr")
         apply (simp_all add: failureMessage_def ev)
        done
    qed
  qed
qed

lemma alwaysFails_facts:
  "\<not> succeeds (alwaysFails m k)" "failureMessage (alwaysFails m k) = m"
  by (simp_all add: succeeds_def failureMessage_def alwaysFails_def errorMessageOf_def)

text \<open>
  Claim C1, as amended.  With \<open>maxRetries \<ge> 1\<close> and an adapter none of whose calls
  succeeds (it reports failure or throws), the procedure calls the adapter exactly
  \<open>maxRetries\<close> times, waits \<open>2 ^ (k - 1)\<close> seconds after the \<open>k\<close>-th failed call as long
  as \<open>k < maxRetries\<close>, and resolves to a failed result whose attempt count is
  \<open>maxRetries\<close> and whose message is the message of the last error, or the text
  \<open>Payment processing failed\<close> when that message is empty; the worker stores such a row
  as FAILED.
\<close>

theorem processPaymentRow_exhausted:
  assumes "1 \<le> mr" and "\<forall>k. 1 \<le> k \<and> int k \<le> mr \<longrightarrow> \<not> succeeds (adapter k)"
  shows "processPaymentRow adapter mr =
     (Fulfilled \<lparr>rr_success = False, rr_providerResponse = None,
                 rr_errorMessage = Some (if failureMessage (adapter (nat mr)) = []
                                         then ''Payment processing failed''
                                         else failureMessage (adapter (nat mr))),
                 rr_attempts = mr\<rparr>,
      concat (map (\<lambda>k. Call k # (if int k < mr then [Wait (2 ^ (k - 1) * 1000)] else [])) [1..<Suc (nat mr)]))
    \<and> rowStatusOf (rr_success (case fst (processPaymentRow adapter mr) of Fulfilled r \<Rightarrow> r)) = ROW_FAILED"
proof -
  have nf: "\<forall>k. 0 < int k \<and> int k \<le> mr \<longrightarrow> \<not> succeeds (adapter k)"
    using assms(2) by auto
  have ev: "retryEvents mr = (\<lambda>k. Call k # (if int k < mr then [Wait (2 ^ (k - 1) * 1000)] else []))"
    by (rule ext) (simp add: retryEvents_def)
  have mx: "max 0 mr = mr" "0 < mr" using assms(1) by simp_all
  have run: "processPaymentRow adapter mr =
     (Fulfilled \<lparr>rr_success = False, rr_providerResponse = None,
                 rr_errorMessage = Some (finalMessage (Some (failureMessage (adapter (nat mr))))),
                 rr_attempts = mr\<rparr>,
      concat (map (retryEvents mr) [Suc (nat 0)..<Suc (nat mr)]))"
    unfolding processPaymentRow_def
    by (subst retryLoop_all_fail[OF nf]) (simp_all only: mx if_True append_Nil order_refl)
  have fm: "finalMessage (Some (failureMessage (adapter (nat mr)))) =
      (if failureMessage (adapter (nat mr)) = [] then ''Payment processing failed''
       else failureMessage (adapter (nat mr)))"
    by (simp add: finalMessage_def)
  show ?thesis
    unfolding run fm ev by (simp add: rowStatusOf_def)
qed

text \<open>
  The instance of the claim: three retries and an adapter that reports
  \<open>Invalid account\<close> at every call.
\<close>

theorem processPaymentRow_exhausted_witness:
  "processPaymentRow (alwaysFails ''Invalid account'') 3 =
     (Fulfilled \<lparr>rr_success = False, rr_providerResponse = None,
                 rr_errorMessage = Some ''Invalid account'', rr_attempts = 3\<rparr>,
      [Call 1, Wait 1000, Call 2, Wait 2000, Call 3])
   \<and> rowStatusOf (rr_success (case fst (processPaymentRow (alwaysFails ''Invalid account'') 3) of Fulfilled r \<Rightarrow> r)) = ROW_FAILED"
proof -
  have h1: "(1::int) \<le> 3" by simp
  have h2: "\<forall>k. 1 \<le> k \<and> int k \<le> 3 \<longrightarrow> \<not> succeeds (alwaysFails ''Invalid account'' k)"
    by (simp add: alwaysFails_facts)
  have up: "[1..<Suc (nat 3)] = [1, 2, 3]"
    by (simp add: upt_conv_Cons)
  have ev: "concat (map (\<lambda>k. Call k # (if int k < 3 then [Wait (2 ^ (k - 1) * 1000)] else [])) [1, 2, 3])
      = [Call 1, Wait 1000, Call 2, Wait 2000, Call 3]"
    by simp
  show ?thesis
    using processPaymentRow_exhausted[OF h1 h2]
    unfolding up ev alwaysFails_facts by (simp add: rowStatusOf_def)
qed

text \<open>
  Claim C1 as stated fails where the last error has an empty message: the result then
  carries the fallback text, not the last error message.
\<close>

theorem processPaymentRow_empty_message_counterexample:
  "rr_errorMessage (case fst (processPaymentRow (alwaysFails []) 3) of Fulfilled r \<Rightarrow> r)
     \<noteq> Some (failureMessage (alwaysFails [] 3))"
proof -
  have nf: "\<forall>k. 0 < int k \<and> int k \<le> 3 \<longrightarrow> \<not> succeeds (alwaysFails [] k)"
    by (simp add: alwaysFails_facts)
  have "fst (processPaymentRow (alwaysFails []) 3) =
          Fulfilled \<lparr>rr_success = False, rr_providerResponse = None,
                     rr_errorMessage = Some (finalMessage (Some (failureMessage (alwaysFails [] (nat 3))))),
                     rr_attempts = 3\<rparr>"
    unfolding processPaymentRow_def
    by (subst retryLoop_all_fail[OF nf]) simp_all
  then show ?thesis
    by (simp add: alwaysFails_facts finalMessage_def)
qed

text \<open>
  Claim C10.  For every adapter behaviour, throwing included, and every \<open>maxRetries\<close>,
  \<open>processPaymentRow\<close> resolves; with \<open>maxRetries \<ge> 1\<close> the attempt count of the result
  lies between 1 and \<open>maxRetries\<close>; with \<open>maxRetries = 0\<close> no adapter call is made and
  the result is a failure with 0 attempts and the message \<open>Payment processing failed\<close>.
\<close>

theorem processPaymentRow_total:
  "\<exists>r tr. processPaymentRow adapter mr = (Fulfilled r, tr)
     \<and> (1 \<le> mr \<longrightarrow> 1 \<le> rr_attempts r \<and> rr_attempts r \<le> mr)
     \<and> (mr = 0 \<longrightarrow> tr = [] \<and> r = \<lparr>rr_success = False, rr_providerResponse = None,
                                     rr_errorMessage = Some ''Payment processing failed'',
                                     rr_attempts = 0\<rparr>)"
proof -
  from retryLoop_fulfilled[of adapter mr 0 None "[]"]
  obtain r tr where run: "retryLoop adapter mr 0 None [] = (Fulfilled r, tr)"
    and pos: "0 < mr \<longrightarrow> 0 < rr_attempts r \<and> rr_attempts r \<le> mr"
    and zero: "\<not> 0 < mr \<longrightarrow> rr_attempts r = 0 \<and> tr = [] \<and> \<not> rr_success r
            \<and> rr_errorMessage r = Some (finalMessage None) \<and> rr_providerResponse r = None"
    by blast
  have a: "1 \<le> mr \<longrightarrow> 1 \<le> rr_attempts r \<and> rr_attempts r \<le> mr"
    using pos by auto
  have b: "mr = 0 \<longrightarrow> tr = [] \<and> r = \<lparr>rr_success = False, rr_providerResponse = None,
                                     rr_errorMessage = Some ''Payment processing failed'',
                                     rr_attempts = 0\<rparr>"
    using zero by (cases r) (simp add: finalMessage_def)
  show ?thesis
    unfolding processPaymentRow_def using run a b by blast
qed

text \<open>An adapter that throws at every call, with two retries and with none.\<close>

theorem processPaymentRow_total_witness:
  "(\<exists>r tr. processPaymentRow (\<lambda>k. Throws NonError) 2 = (Fulfilled r, tr)
      \<and> 1 \<le> rr_attempts r \<and> rr_attempts r \<le> 2)
   \<and> (\<exists>r tr. processPaymentRow (\<lambda>k. Throws NonError) 0 = (Fulfilled r, tr) \<and> tr = []
         \<and> r = \<lparr>rr_success = False, rr_providerResponse = None,
                rr_errorMessage = Some ''Payment processing failed'', rr_attempts = 0\<rparr>)"
proof
  obtain r tr where "processPaymentRow (\<lambda>k. Throws NonError) 2 = (Fulfilled r, tr)"
    and "(1::int) \<le> 2 \<longrightarrow> 1 \<le> rr_attempts r \<and> rr_attempts r \<le> 2"
    using processPaymentRow_total[of "\<lambda>k. Throws NonError" 2] by blast
  then show "\<exists>r tr. processPaymentRow (\<lambda>k. Throws NonError) 2 = (Fulfilled r, tr)
      \<and> 1 \<le> rr_attempts r \<and> rr_attempts r \<le> 2"
    by simp
next
  obtain r tr where "processPaymentRow (\<lambda>k. Throws NonError) 0 = (Fulfilled r, tr)"
    and "(0::int) = 0 \<longrightarrow> tr = [] \<and> r = \<lparr>rr_success = False, rr_providerResponse = None,
                rr_errorMessage = Some ''Payment processing failed'', rr_attempts = 0\<rparr>"
    using processPaymentRow_total[of "\<lambda>k. Throws NonError" 0] by blast
  then show "\<exists>r tr. processPaymentRow (\<lambda>k. Throws NonError) 0 = (Fulfilled r, tr) \<and> tr = []
         \<and> r = \<lparr>rr_success = False, rr_providerResponse = None,
                rr_errorMessage = Some ''Payment processing failed'', rr_attempts = 0\<rparr>"
    by blast
qed

section \<open>Properties of the store\<close>

lemma find_job_exists: "\<exists>j \<in> set (jobs d). job_id j = jid \<Longrightarrow> \<exists>j. findJob d jid = Some j"
  by (cases "findJob d jid") (auto simp add: findJob_def find_None_iff)

lemma find_map_update:
  assumes "\<And>x. key (f x) = key x"
  shows "find (\<lambda>x. key x = i) (map (\<lambda>x. if key x = i then f x else x) xs)
           = map_option f (find (\<lambda>x. key x = i) xs)"
  using assms by (induction xs) auto

lemma find_Some_mem: "find P xs = Some x \<Longrightarrow> x \<in> set xs \<and> P x"
  by (induction xs) (auto split: if_splits)

lemma updateJob_found:
  assumes "findJob d i = Some j" and "\<And>x. job_id (f x) = job_id x"
  shows "\<exists>d'. updateJob d i f = Inr d' \<and> findJob d' i = Some (f j) \<and> rows d' = rows d
           \<and> d' = d\<lparr>jobs := map (\<lambda>j. if job_id j = i then f j else j) (jobs d)\<rparr>"
proof -
  from assms(1) have "j \<in> set (jobs d) \<and> job_id j = i"
    unfolding findJob_def by (rule find_Some_mem)
  then have ex: "\<exists>j \<in> set (jobs d). job_id j = i" by blast
  have "findJob (d\<lparr>jobs := map (\<lambda>j. if job_id j = i then f j else j) (jobs d)\<rparr>) i = Some (f j)"
    using assms(1) find_map_update[of job_id f i "jobs d", OF assms(2)]
    by (simp add: findJob_def)
  with ex show ?thesis by (simp add: updateJob_def)
qed

lemma updRows_simps [simp]:
  "updRows i f [] = []"
  "updRows i f (x # xs) = (if row_id x = i then f x else x) # updRows i f xs"
  by (simp_all add: updRows_def)

lemma length_updRows [simp]: "length (updRows i f xs) = length xs"
  by (simp add: updRows_def)

lemma updRows_absent: "i \<notin> row_id ` set xs \<Longrightarrow> updRows i f xs = xs"
  by (induction xs) auto

lemma map_row_id_updRows: "keepsKeys f \<Longrightarrow> map row_id (updRows i f xs) = map row_id xs"
  by (induction xs) (auto simp add: keepsKeys_def)

lemma filter_job_updRows:
  "keepsKeys f \<Longrightarrow> filter (\<lambda>r. jobId r = jid) (updRows i f xs) = updRows i f (filter (\<lambda>r. jobId r = jid) xs)"
  by (induction xs) (auto simp add: keepsKeys_def)

lemma count_updRows_new:
  "distinct (map row_id xs) \<Longrightarrow> x \<in> set xs \<Longrightarrow> row_id x = i \<Longrightarrow> \<not> P x \<Longrightarrow> P (f x) \<Longrightarrow>
   length (filter P (updRows i f xs)) = Suc (length (filter P xs))"
proof (induction xs)
  case Nil
  then show ?case by simp
next
  case (Cons y ys)
  show ?case
  proof (cases "row_id y = i")
    case True
    with Cons.prems have "y = x" by (auto simp add: image_iff)
    moreover from True Cons.prems(1) have "i \<notin> row_id ` set ys" by auto
    ultimately show ?thesis using True Cons.prems by (simp add: updRows_absent)
  next
    case False
    with Cons show ?thesis by auto
  qed
qed

lemma count_updRows_same:
  "distinct (map row_id xs) \<Longrightarrow> x \<in> set xs \<Longrightarrow> row_id x = i \<Longrightarrow> P (f x) = P x \<Longrightarrow>
   length (filter P (updRows i f xs)) = length (filter P xs)"
proof (induction xs)
  case Nil
  then show ?case by simp
next
  case (Cons y ys)
  show ?case
  proof (cases "row_id y = i")
    case True
    with Cons.prems have "y = x" by (auto simp add: image_iff)
    moreover from True Cons.prems(1) have "i \<notin> row_id ` set ys" by auto
    ultimately show ?thesis using True Cons.prems by (simp add: updRows_absent)
  next
    case False
    with Cons show ?thesis by auto
  qed
qed

lemma updRows_other:
  "r \<in> set xs \<Longrightarrow> row_id r \<noteq> i \<Longrightarrow> r \<in> set (updRows i f xs)"
  by (induction xs) auto

lemma updateRow_found:
  "r \<in> set (rows d) \<Longrightarrow> row_id r = i \<Longrightarrow>
   updateRow d i f = Inr (d\<lparr>rows := updRows i f (rows d)\<rparr>)"
  by (auto simp add: updateRow_def updRows_def)

lemma jobRows_updRows:
  "keepsKeys f \<Longrightarrow> jobRows (d\<lparr>rows := updRows i f (rows d)\<rparr>) jid = updRows i f (jobRows d jid)"
  by (simp add: jobRows_def filter_job_updRows)

section \<open>Properties of the cancel operation\<close>

text \<open>
  Claim C8.  For a job that exists and belongs to the caller, the cancel operation
  succeeds and sets the status to CANCELLED when the status is QUEUED or PROCESSING,
  and a second request on the job just cancelled is rejected with a 409 conflict that
  changes nothing; in every other status the request is rejected with a 409 conflict
  and the store and the queue stay as they were.
\<close>

theorem cancelJob_gate:
  assumes "requestUser env = Inr uid" and "findJob d jid = Some j" and "uploaderId j = uid"
  shows "(status j = QUEUED \<or> status j = PROCESSING \<longrightarrow>
            (\<exists>d' q'. cancelJob env d q jid = (JsonOk jid CANCELLED ''Job cancelled successfully'', d', q')
                \<and> findJob d' jid = Some (j\<lparr>status := CANCELLED\<rparr>)
                \<and> cancelJob env d' q' jid =
                     (JsonError ''INVALID_STATE'' ''Cannot cancel job with status CANCELLED'' 409, d', q')))
       \<and> (\<not> (status j = QUEUED \<or> status j = PROCESSING) \<longrightarrow>
            cancelJob env d q jid =
              (JsonError ''INVALID_STATE'' (''Cannot cancel job with status '' @ statusName (status j)) 409, d, q))"
proof (intro conjI impI)
  assume ok: "status j = QUEUED \<or> status j = PROCESSING"
  obtain d' where upd: "updateJob d jid (\<lambda>j. j\<lparr>status := CANCELLED\<rparr>) = Inr d'"
    and found: "findJob d' jid = Some (j\<lparr>status := CANCELLED\<rparr>)"
    using updateJob_found[OF assms(2), of "\<lambda>j. j\<lparr>status := CANCELLED\<rparr>"] by auto
  let ?q = "if status j = QUEUED \<and> redisUrl env then filter (\<lambda>q. q \<noteq> jid) q else q"
  have first: "cancelJob env d q jid = (JsonOk jid CANCELLED ''Job cancelled successfully'', d', ?q)"
    using assms ok upd by (auto simp add: cancelJob_def Let_def)
  have second: "cancelJob env d' ?q jid =
      (JsonError ''INVALID_STATE'' ''Cannot cancel job with status CANCELLED'' 409, d', ?q)"
    using assms(1,3) found by (simp add: cancelJob_def)
  from first found second
  show "\<exists>d' q'. cancelJob env d q jid = (JsonOk jid CANCELLED ''Job cancelled successfully'', d', q')
                \<and> findJob d' jid = Some (j\<lparr>status := CANCELLED\<rparr>)
                \<and> cancelJob env d' q' jid =
                     (JsonError ''INVALID_STATE'' ''Cannot cancel job with status CANCELLED'' 409, d', q')"
    by blast
next
  assume "\<not> (status j = QUEUED \<or> status j = PROCESSING)"
  then show "cancelJob env d q jid =
      (JsonError ''INVALID_STATE'' (''Cannot cancel job with status '' @ statusName (status j)) 409, d, q)"
    using assms by (simp add: cancelJob_def)
qed

text \<open>A queued job cancelled twice, and a completed job.\<close>

theorem cancelJob_gate_witness:
  "(\<exists>d' q'. cancelJob sampleCancelEnv (sampleDb QUEUED 1) [''job1''] ''job1''
                = (JsonOk ''job1'' CANCELLED ''Job cancelled successfully'', d', q')
        \<and> findJob d' ''job1'' = Some (sampleJob CANCELLED 1)
        \<and> cancelJob sampleCancelEnv d' q' ''job1''
             = (JsonError ''INVALID_STATE'' ''Cannot cancel job with status CANCELLED'' 409, d', q'))
   \<and> cancelJob sampleCancelEnv (sampleDb COMPLETED 1) [] ''job1''
        = (JsonError ''INVALID_STATE'' ''Cannot cancel job with status COMPLETED'' 409,
           sampleDb COMPLETED 1, [])"
proof -
  have u: "requestUser sampleCancelEnv = Inr ''user1''" by (simp add: sampleCancelEnv_def)
  have f: "findJob (sampleDb st n) ''job1'' = Some (sampleJob st n)" for st n
    by (simp add: findJob_def sampleDb_def sampleJob_def)
  have o: "uploaderId (sampleJob st n) = ''user1''" for st n by (simp add: sampleJob_def)
  have s: "status (sampleJob st n) = st"
    "(sampleJob st n)\<lparr>status := CANCELLED\<rparr> = sampleJob CANCELLED n" for st n
    by (simp_all add: sampleJob_def)
  have q: "status (sampleJob QUEUED 1) = QUEUED \<or> status (sampleJob QUEUED 1) = PROCESSING"
    by (simp add: s)
  have nc: "\<not> (status (sampleJob COMPLETED 1) = QUEUED \<or> status (sampleJob COMPLETED 1) = PROCESSING)"
    by (simp add: s)
  from cancelJob_gate[OF u f o, of QUEUED 1 "[''job1'']"] q
  have first: "\<exists>d' q'. cancelJob sampleCancelEnv (sampleDb QUEUED 1) [''job1''] ''job1''
                = (JsonOk ''job1'' CANCELLED ''Job cancelled successfully'', d', q')
        \<and> findJob d' ''job1'' = Some ((sampleJob QUEUED 1)\<lparr>status := CANCELLED\<rparr>)
        \<and> cancelJob sampleCancelEnv d' q' ''job1''
             = (JsonError ''INVALID_STATE'' ''Cannot cancel job with status CANCELLED'' 409, d', q')"
    by blast
  from cancelJob_gate[OF u f o, of COMPLETED 1 "[]"] nc
  have "cancelJob sampleCancelEnv (sampleDb COMPLETED 1) [] ''job1''
        = (JsonError ''INVALID_STATE''
             (''Cannot cancel job with status '' @ statusName (status (sampleJob COMPLETED 1))) 409,
           sampleDb COMPLETED 1, [])"
    by blast
  then have second: "cancelJob sampleCancelEnv (sampleDb COMPLETED 1) [] ''job1''
        = (JsonError ''INVALID_STATE'' ''Cannot cancel job with status COMPLETED'' 409,
           sampleDb COMPLETED 1, [])"
    by (simp add: s)
  from first second show ?thesis
    unfolding s by (rule conjI)
qed

section \<open>Properties of the job processor\<close>

lemma jobRows_subset: "r \<in> set (jobRows d jid) \<Longrightarrow> r \<in> set (rows d)"
  by (simp add: jobRows_def)

lemma distinct_jobRows: "distinct (map row_id (rows d)) \<Longrightarrow> distinct (map row_id (jobRows d jid))"
  by (simp add: jobRows_def distinct_map_filter)

lemma settle_step:
  assumes inv: "rowsInv jid (p # pend) c d"
    and keys: "keepsKeys f"
    and st: "\<forall>r. row_status (f r) = st" "st \<noteq> PENDING"
    and pc: "processedCount c' = processedCount c + 1"
    and fc: "failedCount c' = failedCount c + (if st = ROW_FAILED then 1 else 0)"
  shows "updateRow d (row_id p) f = Inr (d\<lparr>rows := updRows (row_id p) f (rows d)\<rparr>)
         \<and> rowsInv jid pend c' (d\<lparr>rows := updRows (row_id p) f (rows d)\<rparr>)"
proof -
  let ?i = "row_id p"
  let ?d = "d\<lparr>rows := updRows ?i f (rows d)\<rparr>"
  let ?js = "jobRows d jid"
  from inv obtain r where r: "r \<in> set ?js" "row_id r = ?i" "row_status r = PENDING"
    unfolding rowsInv_def by auto
  have dist: "distinct (map row_id (rows d))" and distj: "distinct (map row_id ?js)"
    using inv distinct_jobRows unfolding rowsInv_def by auto
  have upd: "updateRow d ?i f = Inr ?d"
    using r(1,2) by (intro updateRow_found[of r]) (auto dest: jobRows_subset)
  have jr: "jobRows ?d jid = updRows ?i f ?js"
    using keys by (rule jobRows_updRows)
  have nterm: "\<not> terminalRow r" using r(3) by (simp add: terminalRow_def)
  have isterm: "terminalRow (f r)" using st by (cases st) (auto simp add: terminalRow_def)
  have cnt_t: "length (filter terminalRow (updRows ?i f ?js)) = Suc (length (filter terminalRow ?js))"
    using distj r(1,2) nterm isterm by (rule count_updRows_new)
  have cnt_f: "int (length (filter failedRow (updRows ?i f ?js)))
                 = int (length (filter failedRow ?js)) + (if st = ROW_FAILED then 1 else 0)"
  proof (cases "st = ROW_FAILED")
    case True
    have "\<not> failedRow r" using r(3) by (simp add: failedRow_def)
    moreover have "failedRow (f r)" using st True by (simp add: failedRow_def)
    ultimately have "length (filter failedRow (updRows ?i f ?js)) = Suc (length (filter failedRow ?js))"
      using distj r(1,2) by (intro count_updRows_new[of _ r]) auto
    with True show ?thesis by simp
  next
    case False
    have "failedRow (f r) = failedRow r" using st False r(3) by (simp add: failedRow_def)
    then have "length (filter failedRow (updRows ?i f ?js)) = length (filter failedRow ?js)"
      using distj r(1,2) by (intro count_updRows_same[of _ r]) auto
    with False show ?thesis by simp
  qed
  have pend: "\<forall>q \<in> set pend. \<exists>r' \<in> set (updRows ?i f ?js). row_id r' = row_id q \<and> row_status r' = PENDING"
  proof
    fix q assume q: "q \<in> set pend"
    with inv obtain r' where r': "r' \<in> set ?js" "row_id r' = row_id q" "row_status r' = PENDING"
      unfolding rowsInv_def by auto
    from inv have "?i \<notin> row_id ` set pend" unfolding rowsInv_def by simp
    with q have "row_id q \<noteq> ?i" by (metis imageI)
    with r' have "r' \<in> set (updRows ?i f ?js)" by (intro updRows_other) auto
    with r' show "\<exists>r' \<in> set (updRows ?i f ?js). row_id r' = row_id q \<and> row_status r' = PENDING"
      by blast
  qed
  have "rowsInv jid pend c' ?d"
    unfolding rowsInv_def jr
    using inv keys pend cnt_t cnt_f pc fc
    by (simp add: rowsInv_def map_row_id_updRows)
  with upd show ?thesis by simp
qed


lemma settleRows_inv:
  "rowsInv jid (batch @ rest) c d \<Longrightarrow> length results = length batch \<Longrightarrow>
   \<exists>c' d'. settleRows env (zip batch results) c d = Inr (c', d') \<and> rowsInv jid rest c' d'
      \<and> jobs d' = jobs d \<and> length (jobRows d' jid) = length (jobRows d jid)
      \<and> ((\<forall>v \<in> set results. \<exists>r. v = Fulfilled r \<and> rr_success r) \<longrightarrow> failedCount c' = failedCount c)"
proof (induction batch arbitrary: c d results)
  case Nil
  then show ?case by simp
next
  case (Cons p ps)
  from Cons.prems(2) obtain v vs where res: "results = v # vs" and len: "length vs = length ps"
    by (cases results) auto
  from Cons.prems(1) have inv: "rowsInv jid (p # (ps @ rest)) c d" by simp
  show ?case
  proof (cases v)
    case (Fulfilled x)
    define f where "f = (\<lambda>r::db_row. r\<lparr>row_status := rowStatusOf (rr_success x),
                    providerResponse := keepIfUndefined (rr_providerResponse x) (providerResponse r),
                    errorMessage := keepIfUndefined (rr_errorMessage x) (errorMessage r),
                    attempts := rr_attempts x\<rparr>)"
    define c1 where "c1 = (if rr_success x
             then c\<lparr>successCount := successCount c + 1, processedCount := processedCount c + 1\<rparr>
             else c\<lparr>failedCount := failedCount c + 1, processedCount := processedCount c + 1\<rparr>)"
    define d1 where "d1 = d\<lparr>rows := updRows (row_id p) f (rows d)\<rparr>"
    have keys: "keepsKeys f" by (simp add: keepsKeys_def f_def)
    have step: "updateRow d (row_id p) f = Inr d1 \<and> rowsInv jid (ps @ rest) c1 d1"
      unfolding d1_def
      by (rule settle_step[OF inv keys, of "rowStatusOf (rr_success x)"])
         (simp_all add: f_def c1_def rowStatusOf_def)
    from Cons.IH[OF conjunct2[OF step] len] obtain c' d' where
      rec: "settleRows env (zip ps vs) c1 d1 = Inr (c', d')" "rowsInv jid rest c' d'"
        "jobs d' = jobs d1" "length (jobRows d' jid) = length (jobRows d1 jid)"
        "(\<forall>v \<in> set vs. \<exists>r. v = Fulfilled r \<and> rr_success r) \<longrightarrow> failedCount c' = failedCount c1"
      by blast
    have run: "settleRows env (zip (p # ps) results) c d = Inr (c', d')"
      using step rec(1) by (simp add: res Fulfilled f_def c1_def)
    have same: "jobs d1 = jobs d" "length (jobRows d1 jid) = length (jobRows d jid)"
      using keys by (simp_all add: d1_def jobRows_updRows)
    have nofail: "(\<forall>v \<in> set results. \<exists>r. v = Fulfilled r \<and> rr_success r) \<longrightarrow> failedCount c' = failedCount c"
      using rec(5) by (auto simp add: res Fulfilled c1_def)
    from run rec(2,3,4) same nofail show ?thesis by auto
  next
    case (Rejected reason)
    define f where "f = (\<lambda>r::db_row. r\<lparr>row_status := ROW_FAILED,
                    errorMessage := Some (thrownMessage reason),
                    attempts := MAX_RETRIES env\<rparr>)"
    define c1 where "c1 = c\<lparr>failedCount := failedCount c + 1, processedCount := processedCount c + 1\<rparr>"
    define d1 where "d1 = d\<lparr>rows := updRows (row_id p) f (rows d)\<rparr>"
    have keys: "keepsKeys f" by (simp add: keepsKeys_def f_def)
    have step: "updateRow d (row_id p) f = Inr d1 \<and> rowsInv jid (ps @ rest) c1 d1"
      unfolding d1_def
      by (rule settle_step[OF inv keys, of ROW_FAILED]) (simp_all add: f_def c1_def)
    from Cons.IH[OF conjunct2[OF step] len] obtain c' d' where
      rec: "settleRows env (zip ps vs) c1 d1 = Inr (c', d')" "rowsInv jid rest c' d'"
        "jobs d' = jobs d1" "length (jobRows d' jid) = length (jobRows d1 jid)"
      by blast
    have run: "settleRows env (zip (p # ps) results) c d = Inr (c', d')"
      using step rec(1) by (simp add: res Rejected f_def c1_def)
    have same: "jobs d1 = jobs d" "length (jobRows d1 jid) = length (jobRows d jid)"
      using keys by (simp_all add: d1_def jobRows_updRows)
    from run rec(2,3,4) same show ?thesis by (auto simp add: res Rejected)
  qed
qed

lemma rowsInv_jobs_update:
  assumes "rowsInv jid pend c d" and "rows d' = rows d" and "\<exists>j \<in> set (jobs d'). job_id j = jid"
  shows "rowsInv jid pend c d'"
  using assms by (simp add: rowsInv_def jobRows_def)

lemma processPaymentRow_first_ok:
  "1 \<le> mr \<Longrightarrow> succeeds (adapter 1) \<Longrightarrow>
   \<exists>r. fst (processPaymentRow adapter mr) = Fulfilled r \<and> rr_success r"
  unfolding processPaymentRow_def
  by (subst retryLoop.simps) (auto simp add: succeeds_def Let_def split: adapter_outcome.splits)

lemma processBatch_inv:
  assumes inv: "rowsInv jid (batch @ rest) c d"
  shows "\<exists>c' d'. processBatch env jid batch c d = Inr (c', d') \<and> rowsInv jid rest c' d'
      \<and> countersAgree d' jid \<and> length (jobRows d' jid) = length (jobRows d jid)
      \<and> ((\<forall>r \<in> set batch. firstCallOk env r) \<longrightarrow> failedCount c' = failedCount c)"
proof -
  let ?results = "map (\<lambda>row. fst (processPaymentRow (adapterCall env row) (MAX_RETRIES env))) batch"
  from settleRows_inv[OF inv, of ?results env] obtain c' d1 where
    s: "settleRows env (zip batch ?results) c d = Inr (c', d1)" "rowsInv jid rest c' d1"
       "jobs d1 = jobs d" "length (jobRows d1 jid) = length (jobRows d jid)"
       "(\<forall>v \<in> set ?results. \<exists>r. v = Fulfilled r \<and> rr_success r) \<longrightarrow> failedCount c' = failedCount c"
    by auto
  from s(2) have "\<exists>j \<in> set (jobs d1). job_id j = jid" by (simp add: rowsInv_def)
  then obtain j where j: "findJob d1 jid = Some j" using find_job_exists by blast
  let ?f = "\<lambda>j. j\<lparr>processedRows := processedCount c', failedRows := failedCount c'\<rparr>"
  from updateJob_found[OF j, of ?f] obtain d' where
    u: "updateJob d1 jid ?f = Inr d'" "findJob d' jid = Some (?f j)" "rows d' = rows d1"
    by auto
  have run: "processBatch env jid batch c d = Inr (c', d')"
    using s(1) u(1) by (simp add: processBatch_def)
  from u(2) have ex: "\<exists>j \<in> set (jobs d'). job_id j = jid"
    unfolding findJob_def by (auto dest: find_Some_mem)
  have inv': "rowsInv jid rest c' d'"
    using s(2) u(3) ex by (rule rowsInv_jobs_update)
  have jr: "jobRows d' jid = jobRows d1 jid" using u(3) by (simp add: jobRows_def)
  have agree: "countersAgree d' jid"
    using u(2) s(2) by (simp add: countersAgree_def jr rowsInv_def)
  have nofail: "(\<forall>r \<in> set batch. firstCallOk env r) \<longrightarrow> failedCount c' = failedCount c"
  proof
    assume ok: "\<forall>r \<in> set batch. firstCallOk env r"
    have "\<forall>v \<in> set ?results. \<exists>r. v = Fulfilled r \<and> rr_success r"
      using ok by (auto simp add: firstCallOk_def intro: processPaymentRow_first_ok)
    with s(5) show "failedCount c' = failedCount c" by blast
  qed
  from run inv' agree jr s(4) nofail show ?thesis by auto
qed

lemma batchLoop_prefix:
  "0 < BATCH_SIZE env \<Longrightarrow> length rs \<le> i + k * BATCH_SIZE env \<Longrightarrow>
   batchLoop env jid rs i c d = Some (batchPrefix k env jid rs i c d)"
proof (induction k arbitrary: i c d)
  case 0
  then show ?case by (subst batchLoop.simps) simp
next
  case (Suc k)
  show ?case
  proof (cases "i < length rs")
    case False
    then show ?thesis by (subst batchLoop.simps) simp
  next
    case True
    have le: "length rs \<le> (i + BATCH_SIZE env) + k * BATCH_SIZE env"
      using Suc.prems(2) by simp
    show ?thesis
    proof (cases "processBatch env jid (take (BATCH_SIZE env) (drop i rs)) c d")
      case (Inl ed)
      with True show ?thesis by (subst batchLoop.simps) simp
    next
      case (Inr cd)
      obtain c' d' where cd: "cd = (c', d')" by (cases cd)
      from Suc.IH[OF Suc.prems(1) le, of c' d'] True Inr cd
      show ?thesis by (subst batchLoop.simps) simp
    qed
  qed
qed


lemma batchPrefix_inv:
  "rowsInv jid (drop i rs) c d \<Longrightarrow>
   \<exists>c' d'. batchPrefix k env jid rs i c d = Inr (c', d')
      \<and> rowsInv jid (drop (i + k * BATCH_SIZE env) rs) c' d'
      \<and> length (jobRows d' jid) = length (jobRows d jid)
      \<and> (countersAgree d jid \<or> (1 \<le> k \<and> i < length rs) \<longrightarrow> countersAgree d' jid)
      \<and> ((\<forall>r \<in> set rs. firstCallOk env r) \<longrightarrow> failedCount c' = failedCount c)"
proof (induction k arbitrary: i c d)
  case 0
  then show ?case by simp
next
  case (Suc k)
  let ?B = "BATCH_SIZE env"
  show ?case
  proof (cases "i < length rs")
    case False
    then have "drop i rs = []" "drop (i + Suc k * ?B) rs = []" by simp_all
    with Suc.prems False show ?thesis by simp
  next
    case True
    let ?batch = "take ?B (drop i rs)"
    have "drop (i + ?B) rs = drop ?B (drop i rs)" by (simp add: add.commute)
    then have split: "drop i rs = ?batch @ drop (i + ?B) rs"
      by (simp only: append_take_drop_id)
    from Suc.prems have "rowsInv jid (?batch @ drop (i + ?B) rs) c d"
      using split by simp
    from processBatch_inv[OF this, of env] obtain c1 d1 where
      b: "processBatch env jid ?batch c d = Inr (c1, d1)" "rowsInv jid (drop (i + ?B) rs) c1 d1"
         "countersAgree d1 jid" "length (jobRows d1 jid) = length (jobRows d jid)"
         "(\<forall>r \<in> set ?batch. firstCallOk env r) \<longrightarrow> failedCount c1 = failedCount c"
      by blast
    from Suc.IH[OF b(2)] obtain c' d' where
      r: "batchPrefix k env jid rs (i + ?B) c1 d1 = Inr (c', d')"
         "rowsInv jid (drop (i + ?B + k * ?B) rs) c' d'"
         "length (jobRows d' jid) = length (jobRows d1 jid)"
         "countersAgree d1 jid \<or> (1 \<le> k \<and> i + ?B < length rs) \<longrightarrow> countersAgree d' jid"
         "(\<forall>r \<in> set rs. firstCallOk env r) \<longrightarrow> failedCount c' = failedCount c1"
      by blast
    have run: "batchPrefix (Suc k) env jid rs i c d = Inr (c', d')"
      using True b(1) r(1) by simp
    have idx: "i + ?B + k * ?B = i + Suc k * ?B" by simp
    have sub: "set ?batch \<subseteq> set rs"
      by (meson set_take_subset set_drop_subset subset_trans)
    have nofail: "(\<forall>r \<in> set rs. firstCallOk env r) \<longrightarrow> failedCount c' = failedCount c"
      using b(5) r(5) sub by auto
    from run r(2,3,4) b(3,4) nofail show ?thesis
      unfolding idx by auto
  qed
qed

text \<open>
  Claim C2.  Take a job whose rows are all PENDING, in a store whose row ids are
  distinct, and a positive batch size.  Whatever the adapter does, the processor
  callback returns, the job ends COMPLETED with \<open>completedAt\<close> stamped and
  \<open>processedRows\<close> equal to the number of its rows, and the persisted counters agree with
  the rows (\<open>processedRows\<close> counts the rows in SUCCESS or FAILED, \<open>failedRows\<close> the rows
  in FAILED); they also agree after every batch, that is in the state reached after
  \<open>k \<ge> 1\<close> rounds of the batch loop.  When the first adapter call of every row succeeds,
  \<open>failedRows\<close> is 0.
\<close>

theorem processJob_completes:
  assumes "0 < BATCH_SIZE env" and "findJob d jid = Some j"
    and "distinct (map row_id (rows d))"
    and "\<forall>r \<in> set (jobRows d jid). row_status r = PENDING"
  shows "(\<exists>c d' j'. processJob env d jid = Some (Inr (c, d')) \<and> findJob d' jid = Some j'
            \<and> status j' = COMPLETED \<and> completedAt j' = Some (endTime env)
            \<and> processedRows j' = int (length (jobRows d jid))
            \<and> countersAgree d' jid
            \<and> ((\<forall>r \<in> set (jobRows d jid). firstCallOk env r) \<longrightarrow> failedRows j' = 0))
       \<and> (\<forall>k. 1 \<le> k \<and> jobRows d jid \<noteq> [] \<longrightarrow>
            (\<exists>rs d1 ck dk. workerStart env d jid = Inr (rs, d1)
                \<and> batchPrefix k env jid rs 0 zeroCounts d1 = Inr (ck, dk)
                \<and> countersAgree dk jid))"
proof -
  let ?rs = "jobRows d jid"
  let ?start = "\<lambda>j. j\<lparr>status := PROCESSING, startedAt := Some (startTime env)\<rparr>"
  from updateJob_found[OF assms(2), of ?start] obtain d1 where
    u1: "updateJob d jid ?start = Inr d1" "findJob d1 jid = Some (?start j)" "rows d1 = rows d"
    by auto
  have start: "workerStart env d jid = Inr (?rs, d1)"
    using assms(2) u1(1) by (simp add: workerStart_def)
  have jr1: "jobRows d1 jid = ?rs" using u1(3) by (simp add: jobRows_def)
  have ex1: "\<exists>j \<in> set (jobs d1). job_id j = jid"
    using u1(2) unfolding findJob_def by (auto dest: find_Some_mem)
  have none: "filter terminalRow ?rs = []" "filter failedRow ?rs = []"
    using assms(4) by (auto simp add: filter_empty_conv terminalRow_def failedRow_def)
  have self: "\<forall>p \<in> set ?rs. \<exists>r \<in> set ?rs. row_id r = row_id p \<and> row_status r = PENDING"
    using assms(4) by blast
  have inv0: "rowsInv jid (drop 0 ?rs) zeroCounts d1"
    using assms(3) ex1 none distinct_jobRows[OF assms(3), of jid] self
    by (simp add: rowsInv_def jr1 u1(3) zeroCounts_def)
  have prefix: "\<exists>c' d'. batchPrefix k env jid ?rs 0 zeroCounts d1 = Inr (c', d')
      \<and> rowsInv jid (drop (k * BATCH_SIZE env) ?rs) c' d'
      \<and> length (jobRows d' jid) = length ?rs
      \<and> (1 \<le> k \<and> ?rs \<noteq> [] \<longrightarrow> countersAgree d' jid)
      \<and> ((\<forall>r \<in> set ?rs. firstCallOk env r) \<longrightarrow> failedCount c' = 0)" for k
    using batchPrefix_inv[OF inv0, of k env] by (auto simp add: jr1 zeroCounts_def)
  from prefix[of "length ?rs"] obtain c2 d2 where
    p: "batchPrefix (length ?rs) env jid ?rs 0 zeroCounts d1 = Inr (c2, d2)"
       "rowsInv jid (drop (length ?rs * BATCH_SIZE env) ?rs) c2 d2"
       "length (jobRows d2 jid) = length ?rs"
       "(\<forall>r \<in> set ?rs. firstCallOk env r) \<longrightarrow> failedCount c2 = 0"
    by blast
  have enough: "length ?rs \<le> 0 + length ?rs * BATCH_SIZE env" using assms(1) by simp
  then have alldone: "drop (length ?rs * BATCH_SIZE env) ?rs = []" by simp
  have loop: "batchLoop env jid ?rs 0 zeroCounts d1 = Some (Inr (c2, d2))"
    unfolding batchLoop_prefix[OF assms(1) enough] p(1) ..
  from p(2) have inv2: "rowsInv jid [] c2 d2" unfolding alldone .
  then have pc: "processedCount c2 = int (length ?rs)"
    and fc: "failedCount c2 = int (length (filter failedRow (jobRows d2 jid)))"
    and pt: "processedCount c2 = int (length (filter terminalRow (jobRows d2 jid)))"
    using p(3) by (simp_all add: rowsInv_def)
  from inv2 have "\<exists>j \<in> set (jobs d2). job_id j = jid" by (simp add: rowsInv_def)
  then obtain j2 where j2: "findJob d2 jid = Some j2" using find_job_exists by blast
  let ?fin = "\<lambda>j. j\<lparr>status := COMPLETED, completedAt := Some (endTime env),
                    processedRows := processedCount c2, failedRows := failedCount c2\<rparr>"
  from updateJob_found[OF j2, of ?fin] obtain d3 where
    u3: "updateJob d2 jid ?fin = Inr d3" "findJob d3 jid = Some (?fin j2)" "rows d3 = rows d2"
    by auto
  have fin: "workerFinish env jid c2 d2 = Inr (c2, d3)"
    using u3(1) by (simp add: workerFinish_def)
  have run: "processJob env d jid = Some (Inr (c2, d3))"
    by (simp add: processJob_def start loop fin)
  have jr3: "jobRows d3 jid = jobRows d2 jid" using u3(3) by (simp add: jobRows_def)
  have agree: "countersAgree d3 jid"
    using u3(2) pt fc by (simp add: countersAgree_def jr3)
  have first: "\<exists>c d' j'. processJob env d jid = Some (Inr (c, d')) \<and> findJob d' jid = Some j'
            \<and> status j' = COMPLETED \<and> completedAt j' = Some (endTime env)
            \<and> processedRows j' = int (length ?rs)
            \<and> countersAgree d' jid
            \<and> ((\<forall>r \<in> set ?rs. firstCallOk env r) \<longrightarrow> failedRows j' = 0)"
    using run u3(2) pc agree p(4) by auto
  have second: "\<forall>k. 1 \<le> k \<and> ?rs \<noteq> [] \<longrightarrow>
            (\<exists>rs d1 ck dk. workerStart env d jid = Inr (rs, d1)
                \<and> batchPrefix k env jid rs 0 zeroCounts d1 = Inr (ck, dk)
                \<and> countersAgree dk jid)"
  proof (intro allI impI)
    fix k :: nat assume k: "1 \<le> k \<and> ?rs \<noteq> []"
    from prefix[of k] k obtain ck dk where
      "batchPrefix k env jid ?rs 0 zeroCounts d1 = Inr (ck, dk)" "countersAgree dk jid"
      by blast
    with start show "\<exists>rs d1 ck dk. workerStart env d jid = Inr (rs, d1)
                \<and> batchPrefix k env jid rs 0 zeroCounts d1 = Inr (ck, dk)
                \<and> countersAgree dk jid"
      by blast
  qed
  from first second show ?thesis by blast
qed

lemma seededRandom_bound: "seededRandom a input < 1000"
  by (simp add: seededRandom_def)

lemma fake_always_succeeds:
  assumes "1 \<le> successRate a"
  shows "succeeds (fakeAdapterCall a envs r k)"
proof -
  let ?key = "paymentKey (asPaymentRow (normalized r))"
  have "(of_nat (seededRandom a ?key) :: rat) < of_nat 1000"
    using seededRandom_bound[of a ?key] by (simp only: of_nat_less_iff)
  then have "(of_nat (seededRandom a ?key) :: rat) / 1000 < 1"
    by simp
  then have "(of_nat (seededRandom a ?key) :: rat) / 1000 < successRate a"
    using assms by linarith
  then show ?thesis
    by (simp only: succeeds_def fakeAdapterCall_def createPayment_outcome adapter_outcome.case)
qed

lemma sampleDb_rows:
  "jobRows (sampleDb st n) ''job1'' = map sampleRow [0..<n]"
  by (simp add: jobRows_def sampleDb_def sampleRow_def filter_map o_def)

text \<open>
  The scenario of the claim: 12 rows, batches of 10, a fake adapter with success rate 1.
\<close>

theorem processJob_completes_witness:
  "\<exists>c d' j'. processJob
        (sampleEnv (fakeAdapterCall \<lparr>successRate = 1, latencyMs = 0, seed = 42\<rparr>
           (\<lambda>k. \<lparr>dateNow = 0, randomSuffix = ''abc'', isoNow = ''2025-11-02T00:00:00.000Z''\<rparr>)))
        (sampleDb QUEUED 12) ''job1'' = Some (Inr (c, d'))
      \<and> findJob d' ''job1'' = Some j' \<and> status j' = COMPLETED
      \<and> processedRows j' = 12 \<and> failedRows j' = 0"
proof -
  let ?a = "\<lparr>successRate = 1, latencyMs = 0, seed = 42\<rparr>"
  let ?envs = "\<lambda>k::nat. \<lparr>dateNow = 0, randomSuffix = ''abc'', isoNow = ''2025-11-02T00:00:00.000Z''\<rparr>"
  let ?env = "sampleEnv (fakeAdapterCall ?a ?envs)"
  let ?d = "sampleDb QUEUED 12"
  have h1: "0 < BATCH_SIZE ?env" by (simp add: sampleEnv_def)
  have h2: "findJob ?d ''job1'' = Some (sampleJob QUEUED 12)"
    by (simp add: findJob_def sampleDb_def sampleJob_def)
  have h3: "distinct (map row_id (rows ?d))"
    by code_simp
  have h4: "\<forall>r \<in> set (jobRows ?d ''job1''). row_status r = PENDING"
    by (simp add: sampleDb_rows sampleRow_def)
  have len: "int (length (jobRows ?d ''job1'')) = 12"
    by (simp add: sampleDb_rows)
  have ok: "\<forall>r \<in> set (jobRows ?d ''job1''). firstCallOk ?env r"
    by (simp add: firstCallOk_def sampleEnv_def fake_always_succeeds)
  from processJob_completes[OF h1 h2 h3 h4] obtain c d' j' where
    "processJob ?env ?d ''job1'' = Some (Inr (c, d'))" "findJob d' ''job1'' = Some j'"
    "status j' = COMPLETED" "processedRows j' = int (length (jobRows ?d ''job1''))"
    "(\<forall>r \<in> set (jobRows ?d ''job1''). firstCallOk ?env r) \<longrightarrow> failedRows j' = 0"
    by blast
  with len ok show ?thesis by auto
qed

text \<open>
  Claim C3 does not hold of the code.  A job is dispatched, the worker sets it to
  PROCESSING, a cancel request is accepted and sets it to CANCELLED, and the worker,
  which never reads the status again, finishes its batches and sets the job to
  COMPLETED: a terminal status is left.
\<close>

theorem cancelled_job_completes:
  "cancelWhileProcessing (sampleEnv (\<lambda>row. alwaysFails ''Invalid account'')) sampleCancelEnv
       (sampleDb QUEUED 1) ''job1''
     = [Some QUEUED, Some PROCESSING, Some CANCELLED, Some CANCELLED, Some COMPLETED]"
proof -
  have loop: "batchLoop (sampleEnv ad) jid [r] 0 c d = Some (batchPrefix 1 (sampleEnv ad) jid [r] 0 c d)"
    for ad jid r c d
    by (rule batchLoop_prefix) (simp_all add: sampleEnv_def)
  have rows1: "rows (sampleDb QUEUED 1) = [sampleRow 0]"
    by (simp add: sampleDb_def)
  show ?thesis
    unfolding cancelWhileProcessing_def workerStart_def
    apply (simp add: findJob_def jobRows_def rows1 sampleDb_def sampleJob_def updateJob_def loop)
    apply code_simp
    done
qed

section \<open>Properties of number rendering and parsing\<close>




lemma not_digit [simp]: "\<not> isDigit (CHR ''.'')" "\<not> isDigit (CHR ''e'')"
  by (simp_all add: isDigit_def)















lemma string_of_nat_small: "n < 10 \<Longrightarrow> string_of_nat n = [digit_char n]"
  by (subst string_of_nat.simps) simp

lemma string_of_nat_large:
  "10 \<le> n \<Longrightarrow> string_of_nat n = string_of_nat (n div 10) @ [digit_char (n mod 10)]"
  by (subst string_of_nat.simps) simp

lemma normDecimal_zero: "normDecimal 0 e = (0, 0)"
  by (subst normDecimal.simps) simp

lemma normDecimal_shift:
  "m \<noteq> 0 \<Longrightarrow> m mod 10 = 0 \<Longrightarrow> normDecimal m e = normDecimal (m div 10) (e + 1)"
  by (subst normDecimal.simps) simp

lemma normDecimal_done: "m mod 10 \<noteq> 0 \<Longrightarrow> normDecimal m e = (m, e)"
  by (subst normDecimal.simps) auto

lemmas number_eval =
  string_of_nat_small string_of_nat_large digit_char_def
  normDecimal_zero normDecimal_shift normDecimal_done
  stringToNumber_def trim_def isSpace_def unsignedDecimal_def exponentPart_def mkFin_def
  radixLiteral_def hexVal_def natOfDigits_def digitVal_def isDigit_def Let_def posToString_def

lemma sample_numbers:
  "stringToNumber ''1000000.00'' = Fin 1 6"
  "stringToNumber ''1000000.01'' = Fin 100000001 (-2)"
  "stringToNumber ''0'' = Fin 0 0"
  "stringToNumber ''-5'' = Fin (-5) 0"
  "stringToNumber ''100.999'' = Fin 100999 (-3)"
  "stringToNumber ''100.000'' = Fin 1 2"
  "stringToNumber ''abc'' = NaN"
  by (simp_all add: number_eval)

text \<open>
  The number read from a string is in lowest terms: its mantissa does not end in 0 (zero
  itself is \<open>Fin 0 0\<close>).  So the exponent of a parsed amount is exactly the number of
  digits its decimal string has after the point.
\<close>

lemma normDecimal_canonical:
  "normDecimal m e = (m', e') \<Longrightarrow> (m' = 0 \<and> e' = 0) \<or> m' mod 10 \<noteq> 0"
proof (induction m e rule: normDecimal.induct)
  case (1 m e)
  show ?case
  proof (cases "m = 0")
    case True
    with "1.prems" show ?thesis by (simp add: normDecimal_zero)
  next
    case False
    show ?thesis
    proof (cases "m mod 10 = 0")
      case True
      with False "1.prems" have "normDecimal (m div 10) (e + 1) = (m', e')"
        by (simp add: normDecimal_shift)
      with "1.IH"[OF False True] show ?thesis by simp
    next
      case nz: False
      with "1.prems" show ?thesis by (simp add: normDecimal_done)
    qed
  qed
qed

lemma mkFin_canonical:
  "mkFin neg m e = Fin m' e' \<Longrightarrow> (m' = 0 \<and> e' = 0) \<or> m' mod 10 \<noteq> 0"
proof -
  assume a: "mkFin neg m e = Fin m' e'"
  obtain m2 e2 where n: "normDecimal m e = (m2, e2)" by (cases "normDecimal m e")
  from normDecimal_canonical[OF n] have c: "(m2 = 0 \<and> e2 = 0) \<or> m2 mod 10 \<noteq> 0" .
  have "int m2 mod 10 \<noteq> 0 \<longleftrightarrow> m2 mod 10 \<noteq> 0" by presburger
  moreover have "(- int m2) mod 10 \<noteq> 0 \<longleftrightarrow> m2 mod 10 \<noteq> 0" by presburger
  ultimately show ?thesis
    using a n c by (auto simp add: mkFin_def split: if_splits)
qed

lemma stringToNumber_canonical:
  "stringToNumber s = Fin m e \<Longrightarrow> (m = 0 \<and> e = 0) \<or> m mod 10 \<noteq> 0"
  by (auto simp add: stringToNumber_def radixLiteral_def unsignedDecimal_def Let_def
      split: if_splits option.splits dest: mkFin_canonical)

section \<open>Properties of the row schema\<close>




lemma rawOptionalString_clean:
  "issuesOf (rawOptionalString f v) = [] \<Longrightarrow>
   \<exists>w. rawOptionalString f v = FValid w \<and> (w = JNull \<or> (\<exists>s. w = JStr s))
       \<and> (idMissing v \<longrightarrow> w = JNull \<or> w = JStr [])"
  by (cases v) (simp_all add: rawOptionalString_def idMissing_def)

lemma rawAmountField_clean:
  "issuesOf (rawAmountField v) = [] \<Longrightarrow> \<exists>x. rawAmountField v = FValid (JNum x) \<and> x \<noteq> NaN"
  by (cases v) (auto simp add: rawAmountField_def split: if_splits)

lemma rawRequiredString_clean:
  "issuesOf (rawRequiredString f t v) = [] \<Longrightarrow> \<exists>s. rawRequiredString f t v = FValid (JStr s)"
  by (cases v) (simp_all add: rawRequiredString_def)

lemma raw_aborted_issues:
  "isAborted (rawOptionalString f v) \<Longrightarrow> issuesOf (rawOptionalString f v) \<noteq> []"
  "isAborted (rawAmountField v) \<Longrightarrow> issuesOf (rawAmountField v) \<noteq> []"
  "isAborted (rawRequiredString f t v) \<Longrightarrow> issuesOf (rawRequiredString f t v) \<noteq> []"
  by (cases v; auto simp add: rawOptionalString_def rawAmountField_def rawRequiredString_def
        split: if_splits)+

lemma raw_failure_nonempty:
  "\<not> coercionPasses c \<Longrightarrow> concat (map issuesOf (rawFields c)) \<noteq> []"
  unfolding coercionPasses_def rawFields_def
  using raw_aborted_issues by auto

lemma valueOf_withIssues [simp]: "valueOf (withIssues v xs) = v"
  by (simp add: withIssues_def)

lemma isAborted_withIssues [simp]: "\<not> isAborted (withIssues v xs)"
  by (simp add: withIssues_def)

lemma stage2_missing_ids:
  assumes a: "a = JNull \<or> a = JStr []" and b: "b = JNull \<or> b = JStr []"
    and x: "x \<noteq> NaN"
    and de: "de = JNull \<or> (\<exists>s. de = JStr s)" and ex: "ex = JNull \<or> (\<exists>s. ex = JStr s)"
  shows "\<exists>iss. PaymentRowSchema pf
            \<lparr>employee_id = a, employee_email = b, amount = JNum x, currency = JStr cur,
             pay_date = JStr pd, description = de, external_reference = ex\<rparr> = Failure iss
          \<and> rowLevelIssue \<in> set iss"
proof -
  have f1: "\<not> isAborted (employeeIdField a)" "valueOf (employeeIdField a) = a"
    using a by (auto simp add: employeeIdField_def)
  have f2: "\<not> isAborted (employeeEmailField pf b)" "valueOf (employeeEmailField pf b) = b"
    using b by (auto simp add: employeeEmailField_def)
  have f3: "\<not> isAborted (amountField (JNum x))"
    using x by (simp add: amountField_def)
  have f4: "\<not> isAborted (currencyField (JStr cur))"
    by (simp add: currencyField_def Let_def)
  have f5: "\<not> isAborted (payDateField pf (JStr pd))"
    by (simp add: payDateField_def)
  have f6: "\<not> isAborted (descriptionField de)"
    using de by (auto simp add: descriptionField_def)
  have f7: "\<not> isAborted (externalReferenceField ex)"
    using ex by (auto simp add: externalReferenceField_def)
  have falsy: "\<not> truthy (js_or a b)"
    using a b by (auto simp add: js_or_def)
  show ?thesis
    using f1 f2 f3 f4 f5 f6 f7 falsy
    by (simp add: PaymentRowSchema_def Let_def)
qed

text \<open>
  Claim C7, as amended.  A candidate whose \<open>employee_id\<close> and \<open>employee_email\<close> are both
  missing or empty is rejected, whatever its other fields are.  When the first stage of
  the schema leaves no issue (the amount converts to a number, currency and pay date
  are strings, no optional field has a wrong type), the issues contain the row-level
  issue, which has no field path, whether or not the other fields break a business
  rule.
\<close>

theorem missing_ids_rejected:
  assumes "idMissing (employee_id c)" and "idMissing (employee_email c)"
  shows "\<exists>iss. RawPaymentRowSchema pf c = Failure iss \<and> iss \<noteq> []
           \<and> (coercionPasses c \<longrightarrow> rowLevelIssue \<in> set iss \<and> path rowLevelIssue = None)"
proof (cases "coercionPasses c")
  case False
  then have ne: "concat (map issuesOf (rawFields c)) \<noteq> []" by (rule raw_failure_nonempty)
  then have "RawPaymentRowSchema pf c = Failure (concat (map issuesOf (rawFields c)))"
    unfolding RawPaymentRowSchema_def Let_def by (simp only: simp_thms if_True)
  with ne False show ?thesis by simp
next
  case True
  then have clean: "issuesOf (rawOptionalString ''employee_id'' (employee_id c)) = []"
    "issuesOf (rawOptionalString ''employee_email'' (employee_email c)) = []"
    "issuesOf (rawAmountField (amount c)) = []"
    "issuesOf (rawRequiredString ''currency'' (\<lambda>s. toUpperCase (trim s)) (currency c)) = []"
    "issuesOf (rawRequiredString ''pay_date'' trim (pay_date c)) = []"
    "issuesOf (rawOptionalString ''description'' (description c)) = []"
    "issuesOf (rawOptionalString ''external_reference'' (external_reference c)) = []"
    by (simp_all add: coercionPasses_def rawFields_def)
  from rawOptionalString_clean[OF clean(1)] assms(1) obtain a where
    a: "rawOptionalString ''employee_id'' (employee_id c) = FValid a" "a = JNull \<or> a = JStr []"
    by blast
  from rawOptionalString_clean[OF clean(2)] assms(2) obtain b where
    b: "rawOptionalString ''employee_email'' (employee_email c) = FValid b" "b = JNull \<or> b = JStr []"
    by blast
  from rawAmountField_clean[OF clean(3)] obtain x where
    x: "rawAmountField (amount c) = FValid (JNum x)" "x \<noteq> NaN"
    by blast
  from rawRequiredString_clean[OF clean(4)] obtain cur where
    cur: "rawRequiredString ''currency'' (\<lambda>s. toUpperCase (trim s)) (currency c) = FValid (JStr cur)"
    by blast
  from rawRequiredString_clean[OF clean(5)] obtain pd where
    pd: "rawRequiredString ''pay_date'' trim (pay_date c) = FValid (JStr pd)"
    by blast
  from rawOptionalString_clean[OF clean(6)] obtain de where
    de: "rawOptionalString ''description'' (description c) = FValid de" "de = JNull \<or> (\<exists>s. de = JStr s)"
    by blast
  from rawOptionalString_clean[OF clean(7)] obtain ex where
    ex: "rawOptionalString ''external_reference'' (external_reference c) = FValid ex"
      "ex = JNull \<or> (\<exists>s. ex = JStr s)"
    by blast
  have fields: "rawFields c = [FValid a, FValid b, FValid (JNum x), FValid (JStr cur),
                               FValid (JStr pd), FValid de, FValid ex]"
    by (simp add: rawFields_def a(1) b(1) x(1) cur pd de(1) ex(1))
  have pipe: "RawPaymentRowSchema pf c = PaymentRowSchema pf
            \<lparr>employee_id = a, employee_email = b, amount = JNum x, currency = JStr cur,
             pay_date = JStr pd, description = de, external_reference = ex\<rparr>"
    by (simp add: RawPaymentRowSchema_def fields)
  from stage2_missing_ids[OF a(2) b(2) x(2) de(2) ex(2), of pf cur pd]
  obtain iss where "RawPaymentRowSchema pf c = Failure iss" "rowLevelIssue \<in> set iss"
    unfolding pipe by blast
  then show ?thesis by (auto simp add: rowLevelIssue_def)
qed

lemma sample_raw_fields:
  "rawFields (anonymousCandidate (JStr ''1500.00'')) =
     [FValid (JStr []), FValid (JStr []), FValid (JNum (Fin 15 2)), FValid (JStr ''USD''),
      FValid (JStr ''2025-11-03''), FValid (JStr []), FValid (JStr [])]"
  by (simp add: rawFields_def anonymousCandidate_def sampleCandidate_def rawOptionalString_def
      rawAmountField_def rawRequiredString_def number_eval toUpperCase_def upperChar_def)

text \<open>A row with no identifier and otherwise valid fields.\<close>

theorem missing_ids_rejected_witness:
  "\<exists>iss. RawPaymentRowSchema (samplePlatform 0) (anonymousCandidate (JStr ''1500.00'')) = Failure iss
      \<and> rowLevelIssue \<in> set iss \<and> path rowLevelIssue = None"
proof -
  let ?c = "anonymousCandidate (JStr ''1500.00'')"
  have h1: "idMissing (employee_id ?c)" and h2: "idMissing (employee_email ?c)"
    by (simp_all add: idMissing_def anonymousCandidate_def sampleCandidate_def)
  have h3: "coercionPasses ?c"
    by (simp add: coercionPasses_def sample_raw_fields)
  from missing_ids_rejected[OF h1 h2, of "samplePlatform 0"] h3 show ?thesis by blast
qed

text \<open>
  Claim C7 as stated fails: with no identifier and the amount \<open>abc\<close>, the first stage
  reports the amount, the second stage never runs, and the issues hold no row-level
  issue.
\<close>

theorem missing_ids_amount_counterexample:
  "idMissing (employee_id (anonymousCandidate (JStr ''abc'')))
   \<and> idMissing (employee_email (anonymousCandidate (JStr ''abc'')))
   \<and> RawPaymentRowSchema (samplePlatform 0) (anonymousCandidate (JStr ''abc''))
       = Failure [fieldIssue ''amount'' ''amount must be a valid number'']
   \<and> rowLevelIssue \<notin> set [fieldIssue ''amount'' ''amount must be a valid number'']"
  by (simp add: idMissing_def anonymousCandidate_def sampleCandidate_def RawPaymentRowSchema_def
      rawFields_def rawOptionalString_def rawAmountField_def rawRequiredString_def
      sample_numbers rowLevelIssue_def fieldIssue_def)

lemmas date_eval =
  isoDateParse_def datePattern_def isDigit_def natOfDigits_def digitVal_def
  daysFromCivil_def dayMs_def Let_def payDateIssues_def payDateInRange_def localMidnight_def
  samplePlatform_def fieldIssue_def

text \<open>
  Claim C6 does not hold of the code.  The bounds of the window are local midnights,
  the pay date is parsed as a UTC midnight.  At 2025-11-02T06:30Z, in a zone at
  UTC+05:30 the local day is 2025-11-02 and the pay date 2026-11-02, exactly 365 days
  later, is rejected; in a zone at UTC-05:00 the local day is 2025-11-02 and the pay
  date 2025-10-03, exactly 30 days earlier, is rejected.  Both are accepted in a zone at
  UTC.
\<close>

theorem pay_date_window_shifted:
  "localMidnight (samplePlatform 330) + 330 * 60000 = 20394 * dayMs
   \<and> isoDateParse ''2026-11-02'' = Some ((20394 + 365) * dayMs)
   \<and> payDateIssues (samplePlatform 330) ''2026-11-02''
        = [fieldIssue ''pay_date''
             ''pay_date must be within +-30 days from today (past) and +365 days (future)'']
   \<and> payDateIssues (samplePlatform 0) ''2026-11-02'' = []
   \<and> localMidnight (samplePlatform (- 300)) - 300 * 60000 = 20394 * dayMs
   \<and> isoDateParse ''2025-10-03'' = Some ((20394 - 30) * dayMs)
   \<and> payDateIssues (samplePlatform (- 300)) ''2025-10-03''
        = [fieldIssue ''pay_date''
             ''pay_date must be within +-30 days from today (past) and +365 days (future)'']
   \<and> payDateIssues (samplePlatform 0) ''2025-10-03'' = []"
  by (simp add: date_eval)

section \<open>Properties of batch validation\<close>












end
